theory Spec2Isabelle
  imports Complex_Main "HOL-Library.Word"
begin

unbundle bit_operations_syntax

section \<open>Speaker embedding manager (package speaker)\<close>

text \<open>
  Conventions of this section.
  \<^item> Go's \<open>float32\<close> and \<open>float64\<close> values are idealised as \<open>real\<close>: no rounding, no
    infinities and no NaN. Every comparison and every arithmetic operation of the source is
    kept where the source has it.
  \<^item> \<open>time.Now()\<close> is an input of each operation (one clock reading per call).
  \<^item> The embedding extractor and the in-memory index are an external library. The extractor
    is a pair of functions of the submitted audio; the index is the table of what has been
    registered under each name, its \<open>RegisterV\<close> result and its \<open>Search\<close> answer are
    inputs.
  \<^item> The file system is a table from paths to file contents. A file holds either a
    serialised database or bytes that do not deserialise.
\<close>

type_synonym embedding = "real list"

record SpeakerData =
  sd_ID :: string
  sd_Name :: string
  sd_Embeddings :: "embedding list"
  sd_CreatedAt :: int
  sd_UpdatedAt :: int
  sd_SampleCount :: int

record SpeakerDatabase =
  db_Speakers :: "string \<rightharpoonup> SpeakerData"
  db_Version :: string
  db_UpdatedAt :: int

datatype file_content = Garbage | Doc SpeakerDatabase

type_synonym filesystem = "string \<rightharpoonup> file_content"

record SpeakerExtractor =
  ex_IsReady :: "real list \<Rightarrow> int \<Rightarrow> bool"
  ex_Compute :: "real list \<Rightarrow> int \<Rightarrow> embedding"

type_synonym speaker_index = "string \<rightharpoonup> embedding list"

record SpeakerManager =
  extractor :: SpeakerExtractor
  manager :: speaker_index
  manager_Search :: "speaker_index \<Rightarrow> embedding \<Rightarrow> real \<Rightarrow> string"
  database :: SpeakerDatabase
  dbPath :: string
  threshold :: real
  embeddingDim :: int

datatype speaker_error =
    ErrInsufficientAudio
  | ErrExtractFailed
  | ErrExtractEmbedding speaker_error
  | ErrRegisterMemory
  | ErrMarshal
  | ErrWriteFile
  | ErrSaveDatabase speaker_error
  | ErrSpeakerNotFound string

text \<open>
  What \<open>ioutil.WriteFile\<close> does on one call: it succeeds, it fails before the file is
  touched (the open fails), or it fails after the file was truncated.
\<close>

datatype write_outcome = WriteOk | OpenFailed | WriteTruncated

record speaker_env =
  env_now :: int
  env_RegisterV_ok :: bool
  env_marshal_ok :: bool
  env_write :: write_outcome

record IdentifyResult =
  ir_Identified :: bool
  ir_SpeakerID :: string
  ir_SpeakerName :: string
  ir_Confidence :: real
  ir_Threshold :: real


subsection \<open>saveDatabase\<close>

definition WriteFile :: "write_outcome \<Rightarrow> filesystem \<Rightarrow> string \<Rightarrow> SpeakerDatabase
    \<Rightarrow> bool \<times> filesystem" where
  "WriteFile w fs path db =
     (case w of
        WriteOk \<Rightarrow> (True, fs(path \<mapsto> Doc db))
      | OpenFailed \<Rightarrow> (False, fs)
      | WriteTruncated \<Rightarrow> (False, fs(path \<mapsto> Garbage)))"

text \<open>
  \<open>saveDatabase\<close> stamps the database, marshals it and writes the bytes to \<open>dbPath\<close>
  itself. \<open>json.MarshalIndent\<close> fails on a number that is not finite; the reals have no
  such number, so whether the marshalling succeeds is an input of the call. When it fails,
  the file is not touched.
\<close>

definition saveDatabase :: "speaker_env \<Rightarrow> SpeakerManager \<Rightarrow> filesystem
    \<Rightarrow> speaker_error option \<times> SpeakerManager \<times> filesystem" where
  "saveDatabase env m fs =
     (let m1 = m\<lparr>database := (database m)\<lparr>db_UpdatedAt := env_now env\<rparr>\<rparr>
      in if \<not> env_marshal_ok env then (Some ErrMarshal, m1, fs)
         else case WriteFile (env_write env) fs (dbPath m1) (database m1) of
                (ok, fs1) \<Rightarrow> if ok then (None, m1, fs1) else (Some ErrWriteFile, m1, fs1))"

subsection \<open>extractEmbedding\<close>

definition extractEmbedding :: "SpeakerManager \<Rightarrow> real list \<Rightarrow> int
    \<Rightarrow> speaker_error + embedding" where
  "extractEmbedding m audioData sampleRate =
     (if \<not> ex_IsReady (extractor m) audioData sampleRate then Inl ErrInsufficientAudio
      else let e = ex_Compute (extractor m) audioData sampleRate
           in if length e = 0 then Inl ErrExtractFailed else Inr e)"

subsection \<open>cosineSimilarity and calculateSimilarity\<close>

function cos_loop :: "real list \<Rightarrow> real list \<Rightarrow> nat \<Rightarrow> real \<times> real \<times> real
    \<Rightarrow> real \<times> real \<times> real" where
  "cos_loop a b i (dotProduct, normA, normB) =
     (if i < length a
      then cos_loop a b (Suc i)
             (dotProduct + a ! i * b ! i, normA + a ! i * a ! i, normB + b ! i * b ! i)
      else (dotProduct, normA, normB))"
  by pat_completeness auto
termination
  by (relation "measure (\<lambda>(a, b, i, acc). length a - i)") auto

declare cos_loop.simps [simp del]

definition cosineSimilarity :: "real list \<Rightarrow> real list \<Rightarrow> real" where
  "cosineSimilarity a b =
     (if length a \<noteq> length b then 0
      else case cos_loop a b 0 (0, 0, 0) of
             (dotProduct, normA, normB) \<Rightarrow>
               if normA = 0 \<or> normB = 0 then 0
               else dotProduct / (sqrt normA * sqrt normB))"

fun sim_loop :: "real list \<Rightarrow> embedding list \<Rightarrow> real \<Rightarrow> real" where
  "sim_loop q [] maxSimilarity = maxSimilarity"
| "sim_loop q (e # es) maxSimilarity =
     (let similarity = cosineSimilarity q e
      in sim_loop q es (if similarity > maxSimilarity then similarity else maxSimilarity))"

definition calculateSimilarity :: "real list \<Rightarrow> embedding list \<Rightarrow> real" where
  "calculateSimilarity queryEmbedding storedEmbeddings =
     (if length storedEmbeddings = 0 then 0
      else sim_loop queryEmbedding storedEmbeddings 0)"

text \<open>
  The glossary's cosine similarity, written from the specification's words: the dot product
  divided by the product of the norms, and 0 for vectors of different length or of zero
  norm.
\<close>

definition dot :: "real list \<Rightarrow> real list \<Rightarrow> real" where
  "dot a b = (\<Sum>i<length a. a ! i * b ! i)"

definition norm2 :: "real list \<Rightarrow> real" where
  "norm2 a = sqrt (dot a a)"

definition cosine_spec :: "real list \<Rightarrow> real list \<Rightarrow> real" where
  "cosine_spec a b =
     (if length a \<noteq> length b \<or> norm2 a = 0 \<or> norm2 b = 0 then 0
      else dot a b / (norm2 a * norm2 b))"

subsection \<open>RegisterSpeaker, IdentifySpeaker, VerifySpeaker, DeleteSpeaker\<close>

text \<open>
  The database's map holds pointers to records, so the updates that \<open>RegisterSpeaker\<close>
  makes through the pointer after storing it are updates of the map's entry. They happen
  before the index and the file are touched and are not undone on a later failure.
\<close>

definition RegisterSpeaker :: "speaker_env \<Rightarrow> SpeakerManager \<Rightarrow> filesystem \<Rightarrow> string
    \<Rightarrow> string \<Rightarrow> real list \<Rightarrow> int \<Rightarrow> speaker_error option \<times> SpeakerManager \<times> filesystem" where
  "RegisterSpeaker env m fs speakerID speakerName audioData sampleRate =
     (case extractEmbedding m audioData sampleRate of
        Inl err \<Rightarrow> (Some (ErrExtractEmbedding err), m, fs)
      | Inr embedding \<Rightarrow>
          let speakerData0 =
                (case db_Speakers (database m) speakerID of
                   Some sd \<Rightarrow> sd
                 | None \<Rightarrow> \<lparr>sd_ID = speakerID, sd_Name = speakerName, sd_Embeddings = [],
                            sd_CreatedAt = env_now env, sd_UpdatedAt = env_now env,
                            sd_SampleCount = 0\<rparr>);
              speakerData = speakerData0
                \<lparr>sd_Embeddings := sd_Embeddings speakerData0 @ [embedding],
                 sd_UpdatedAt := env_now env,
                 sd_SampleCount := sd_SampleCount speakerData0 + 1,
                 sd_Name := speakerName\<rparr>;
              m1 = m\<lparr>database := (database m)
                     \<lparr>db_Speakers := (db_Speakers (database m))(speakerID \<mapsto> speakerData)\<rparr>\<rparr>
          in if \<not> env_RegisterV_ok env then (Some ErrRegisterMemory, m1, fs)
             else
               let m2 = m1\<lparr>manager := (manager m1)(speakerID \<mapsto> sd_Embeddings speakerData)\<rparr>
               in (case saveDatabase env m2 fs of
                     (Some err, m3, fs3) \<Rightarrow> (Some (ErrSaveDatabase err), m3, fs3)
                   | (None, m3, fs3) \<Rightarrow> (None, m3, fs3)))"

definition IdentifySpeaker :: "SpeakerManager \<Rightarrow> real list \<Rightarrow> int
    \<Rightarrow> speaker_error + IdentifyResult" where
  "IdentifySpeaker m audioData sampleRate =
     (case extractEmbedding m audioData sampleRate of
        Inl err \<Rightarrow> Inl (ErrExtractEmbedding err)
      | Inr embedding \<Rightarrow>
          let speakerID = manager_Search m (manager m) embedding (threshold m);
              result = \<lparr>ir_Identified = False, ir_SpeakerID = [], ir_SpeakerName = [],
                        ir_Confidence = 0, ir_Threshold = threshold m\<rparr>
          in if speakerID \<noteq> []
             then (case db_Speakers (database m) speakerID of
                     Some speakerData \<Rightarrow>
                       Inr (result\<lparr>ir_Identified := True, ir_SpeakerID := speakerID,
                                   ir_SpeakerName := sd_Name speakerData,
                                   ir_Confidence :=
                                     calculateSimilarity embedding (sd_Embeddings speakerData)\<rparr>)
                   | None \<Rightarrow> Inr result)
             else Inr result)"


definition DeleteSpeaker :: "speaker_env \<Rightarrow> SpeakerManager \<Rightarrow> filesystem \<Rightarrow> string
    \<Rightarrow> speaker_error option \<times> SpeakerManager \<times> filesystem" where
  "DeleteSpeaker env m fs speakerID =
     (case db_Speakers (database m) speakerID of
        None \<Rightarrow> (Some (ErrSpeakerNotFound speakerID), m, fs)
      | Some _ \<Rightarrow>
          let m1 = m\<lparr>database := (database m)
                     \<lparr>db_Speakers := (db_Speakers (database m))(speakerID := None)\<rparr>\<rparr>;
              m2 = m1\<lparr>manager := (manager m1)(speakerID := None)\<rparr>
          in (case saveDatabase env m2 fs of
                (Some err, m3, fs3) \<Rightarrow> (Some (ErrSaveDatabase err), m3, fs3)
              | (None, m3, fs3) \<Rightarrow> (None, m3, fs3)))"

text \<open>
  The persisted file holds the in-memory database, and the index holds, under each
  speaker's id, that speaker's vectors.
\<close>

definition persisted :: "SpeakerManager \<Rightarrow> filesystem \<Rightarrow> bool" where
  "persisted m fs = (fs (dbPath m) = Some (Doc (database m)))"

definition index_agrees :: "SpeakerManager \<Rightarrow> bool" where
  "index_agrees m = (manager m = map_option sd_Embeddings \<circ> db_Speakers (database m))"

subsection \<open>Auxiliary notions for the statements\<close>


definition not_identified :: "SpeakerManager \<Rightarrow> IdentifyResult" where
  "not_identified m = \<lparr>ir_Identified = False, ir_SpeakerID = [], ir_SpeakerName = [],
      ir_Confidence = 0, ir_Threshold = threshold m\<rparr>"

definition registered_record :: "speaker_env \<Rightarrow> SpeakerManager \<Rightarrow> string \<Rightarrow> string \<Rightarrow> embedding
    \<Rightarrow> SpeakerData" where
  "registered_record env m sid name e =
     (let sd0 = (case db_Speakers (database m) sid of
                   Some sd \<Rightarrow> sd
                 | None \<Rightarrow> \<lparr>sd_ID = sid, sd_Name = name, sd_Embeddings = [],
                            sd_CreatedAt = env_now env, sd_UpdatedAt = env_now env,
                            sd_SampleCount = 0\<rparr>)
      in sd0\<lparr>sd_Embeddings := sd_Embeddings sd0 @ [e], sd_UpdatedAt := env_now env,
             sd_SampleCount := sd_SampleCount sd0 + 1, sd_Name := name\<rparr>)"

text \<open>
  \<open>save_error\<close> and \<open>saved_files\<close> are the error that \<open>saveDatabase\<close> returns and the
  file system it leaves, as functions of the environment.
\<close>

definition save_error :: "speaker_env \<Rightarrow> speaker_error option" where
  "save_error env =
     (if \<not> env_marshal_ok env then Some ErrMarshal
      else if env_write env = WriteOk then None else Some ErrWriteFile)"

definition saved_files :: "speaker_env \<Rightarrow> filesystem \<Rightarrow> string \<Rightarrow> SpeakerDatabase \<Rightarrow> filesystem" where
  "saved_files env fs path db =
     (if \<not> env_marshal_ok env then fs else snd (WriteFile (env_write env) fs path db))"

subsection \<open>Example states\<close>

text \<open>
  A manager with an empty database whose extractor accepts every non-empty clip and returns
  its first two samples, and whose index search always names a speaker; the same manager
  after Alice was registered; and four environments that differ in the outcome of the save.
\<close>

definition ex0 :: SpeakerExtractor where
  "ex0 = \<lparr>ex_IsReady = (\<lambda>a r. a \<noteq> []), ex_Compute = (\<lambda>a r. take 2 a)\<rparr>"

definition db0 :: SpeakerDatabase where
  "db0 = \<lparr>db_Speakers = Map.empty, db_Version = ''1.0.0'', db_UpdatedAt = 0\<rparr>"

definition m0 :: SpeakerManager where
  "m0 = \<lparr>extractor = ex0, manager = Map.empty, manager_Search = (\<lambda>idx e t. ''ghost''),
          database = db0, dbPath = ''data/speaker.json'', threshold = 1/2, embeddingDim = 2\<rparr>"

definition fs0 :: filesystem where
  "fs0 = [''data/speaker.json'' \<mapsto> Doc db0]"

definition env_ok :: speaker_env where
  "env_ok = \<lparr>env_now = 7, env_RegisterV_ok = True, env_marshal_ok = True,
      env_write = WriteOk\<rparr>"

definition env_open_failed :: speaker_env where
  "env_open_failed = \<lparr>env_now = 7, env_RegisterV_ok = True, env_marshal_ok = True,
      env_write = OpenFailed\<rparr>"

definition env_truncated :: speaker_env where
  "env_truncated = \<lparr>env_now = 7, env_RegisterV_ok = True, env_marshal_ok = True,
      env_write = WriteTruncated\<rparr>"

definition env_marshal_failed :: speaker_env where
  "env_marshal_failed = \<lparr>env_now = 7, env_RegisterV_ok = True, env_marshal_ok = False,
      env_write = WriteOk\<rparr>"

definition sd_alice :: SpeakerData where
  "sd_alice = \<lparr>sd_ID = ''u1'', sd_Name = ''Alice'', sd_Embeddings = [[1, 0]],
      sd_CreatedAt = 7, sd_UpdatedAt = 7, sd_SampleCount = 1\<rparr>"

definition m_alice :: SpeakerManager where
  "m_alice = m0\<lparr>manager := [''u1'' \<mapsto> [[1, 0]]],
       database := db0\<lparr>db_Speakers := [''u1'' \<mapsto> sd_alice], db_UpdatedAt := 7\<rparr>\<rparr>"

section \<open>VAD instance pool (package pool)\<close>

text \<open>
  Conventions of this section.
  \<^item> Instances are heap objects that the pool's master list, its channel of available
    instances and the sessions share by pointer. The pool's \<open>store\<close> is that heap: the
    instances the pool has allocated, in allocation order, and a pointer is a position
    in it. A \<open>nil\<close> interface value is \<open>None\<close>. Instances come into being through the
    pool only, so a position beyond the store denotes no instance, and \<open>Put\<close> leaves the
    pool as it is there, as it does for an instance that is not in use.
  \<^item> The external detector is what the code observes of it: the waveform it was given
    and its queue of finished segments. A \<open>nil\<close> handle is \<open>None\<close>.
  \<^item> The \<open>int32\<close> flag \<open>InUse\<close> only ever holds 0 or 1 and the \<open>int64\<close> counters move
    by one per call; both are \<open>int\<close> here.
  \<^item> The buffered channel \<open>available\<close> is the list of its contents, oldest first; its
    capacity is \<open>PoolSize\<close>. A \<open>select\<close> with a \<open>default\<close> case sends when there is room.
  \<^item> The pool's context is not cancelled: \<open>Shutdown\<close> is outside this model, so the third
    case of the \<open>select\<close> in \<open>Get\<close> never fires, and the timeout case fires exactly when
    the channel is empty.
\<close>

record SpeechSegment =
  seg_Start :: int
  seg_Samples :: "real list"

record VoiceActivityDetector =
  vad_accepted :: "real list list"
  vad_queue :: "SpeechSegment option list"

definition NewVoiceActivityDetector :: VoiceActivityDetector where
  "NewVoiceActivityDetector = \<lparr>vad_accepted = [], vad_queue = []\<rparr>"

record SileroVADInstance =
  inst_ID :: int
  inst_VAD :: "VoiceActivityDetector option"
  inst_LastUsed :: int
  inst_InUse :: int

record SileroVADPool =
  store :: "SileroVADInstance list"
  instances :: "nat list"
  available :: "nat list"
  PoolSize :: nat
  totalCreated :: int
  totalReused :: int
  totalActive :: int

datatype pool_error =
    ErrCreateInstance nat
  | ErrQueueFull nat
  | ErrInitializeNone
  | ErrCreateNewInstance

record get_env =
  ge_now :: int
  ge_vad_ok :: bool

subsection \<open>Reset and Destroy\<close>

fun drain :: "SpeechSegment option list \<Rightarrow> SpeechSegment option list" where
  "drain [] = []"
| "drain (segment # rest) = drain rest"

definition Reset :: "SileroVADInstance \<Rightarrow> SileroVADInstance" where
  "Reset i =
     (case inst_VAD i of
        None \<Rightarrow> i
      | Some vad \<Rightarrow> i\<lparr>inst_VAD := Some (vad\<lparr>vad_queue := drain (vad_queue vad)\<rparr>)\<rparr>)"

definition Destroy :: "SileroVADInstance \<Rightarrow> SileroVADInstance" where
  "Destroy i = (case inst_VAD i of None \<Rightarrow> i | Some vad \<Rightarrow> i\<lparr>inst_VAD := None\<rparr>)"

subsection \<open>NewSileroVADPool and Initialize\<close>

definition NewSileroVADPool :: "nat \<Rightarrow> SileroVADPool" where
  "NewSileroVADPool poolSize =
     \<lparr>store = [], instances = [], available = [], PoolSize = poolSize,
      totalCreated = 0, totalReused = 0, totalActive = 0\<rparr>"

text \<open>
  \<open>Initialize\<close> starts one goroutine per instance id; \<open>vad_ok\<close> says for which ids the
  detector is constructed. The goroutines are run here in the order of their ids. An
  instance joins the master list before it is sent to the channel; were the channel full,
  its detector would be deleted and the instance would stay in the master list.
\<close>

definition init_instance :: "(nat \<Rightarrow> bool) \<Rightarrow> int \<Rightarrow> nat \<Rightarrow> SileroVADPool \<times> pool_error list
    \<Rightarrow> SileroVADPool \<times> pool_error list" where
  "init_instance vad_ok now instanceID st =
     (case st of (p, errs) \<Rightarrow>
        if \<not> vad_ok instanceID then (p, errs @ [ErrCreateInstance instanceID])
        else
          let a = length (store p);
              instance = \<lparr>inst_ID = int instanceID, inst_VAD = Some NewVoiceActivityDetector,
                          inst_LastUsed = now, inst_InUse = 0\<rparr>;
              p1 = p\<lparr>store := store p @ [instance], instances := instances p @ [a]\<rparr>
          in if length (available p1) < PoolSize p1
             then (p1\<lparr>available := available p1 @ [a], totalCreated := totalCreated p1 + 1\<rparr>,
                   errs)
             else (p1\<lparr>store := (store p1)[a := instance\<lparr>inst_VAD := None\<rparr>]\<rparr>,
                   errs @ [ErrQueueFull instanceID]))"

definition Initialize :: "(nat \<Rightarrow> bool) \<Rightarrow> int \<Rightarrow> SileroVADPool
    \<Rightarrow> pool_error option \<times> SileroVADPool" where
  "Initialize vad_ok now p =
     (case fold (init_instance vad_ok now) [0..<PoolSize p] (p, []) of
        (p', initErrors) \<Rightarrow>
          if length initErrors > 0 \<and> length (instances p') = 0
          then (Some ErrInitializeNone, p')
          else (None, p'))"

subsection \<open>Get, createNewInstance, Put, GetStats\<close>

definition createNewInstance :: "get_env \<Rightarrow> SileroVADPool \<Rightarrow> (pool_error + nat) \<times> SileroVADPool" where
  "createNewInstance env p =
     (if \<not> ge_vad_ok env then (Inl ErrCreateNewInstance, p)
      else (Inr (length (store p)),
            p\<lparr>store := store p @ [\<lparr>inst_ID = - 1, inst_VAD = Some NewVoiceActivityDetector,
                                    inst_LastUsed = ge_now env, inst_InUse = 1\<rparr>],
              totalCreated := totalCreated p + 1,
              totalActive := totalActive p + 1\<rparr>))"

text \<open>
  \<open>Get\<close> retries by calling itself when the instance it received is marked in use, after
  putting it back at the end of the channel. Nothing bounds the number of retries, so the
  function is partial: \<open>None\<close> is a call that never returns.
\<close>

partial_function (option) Get :: "get_env \<Rightarrow> SileroVADPool
    \<Rightarrow> ((pool_error + nat) \<times> SileroVADPool) option" where
  "Get env p =
     (case available p of
        a # rest \<Rightarrow>
          if inst_InUse (store p ! a) = 0
          then Some (Inr a,
                 p\<lparr>available := rest,
                   store := (store p)[a := (store p ! a)\<lparr>inst_InUse := 1,
                                                       inst_LastUsed := ge_now env\<rparr>],
                   totalReused := totalReused p + 1,
                   totalActive := totalActive p + 1\<rparr>)
          else Get env (p\<lparr>available := (if length rest < PoolSize p then rest @ [a] else rest)\<rparr>)
      | [] \<Rightarrow> Some (createNewInstance env p))"

definition Put :: "int \<Rightarrow> SileroVADPool \<Rightarrow> nat option \<Rightarrow> SileroVADPool" where
  "Put now p instance =
     (case instance of
        None \<Rightarrow> p
      | Some a \<Rightarrow>
          if a < length (store p) \<and> inst_InUse (store p ! a) = 1
          then let i1 = Reset ((store p ! a)\<lparr>inst_InUse := 0, inst_LastUsed := now\<rparr>);
                   p1 = p\<lparr>store := (store p)[a := i1], totalActive := totalActive p - 1\<rparr>
               in if length (available p1) < PoolSize p1
                  then p1\<lparr>available := available p1 @ [a]\<rparr>
                  else p1\<lparr>store := (store p1)[a := Destroy i1]\<rparr>
          else p)"

text \<open>
  \<open>GetStats\<close> returns a map; its entries that depend on the pool's state are the fields
  of \<open>PoolStats\<close>.
\<close>

record PoolStats =
  stat_pool_size :: nat
  stat_total_instances :: int
  stat_available_count :: int
  stat_active_count :: int
  stat_total_created :: int
  stat_total_reused :: int

definition GetStats :: "SileroVADPool \<Rightarrow> PoolStats" where
  "GetStats p =
     \<lparr>stat_pool_size = PoolSize p,
      stat_total_instances = int (length (instances p)),
      stat_available_count = int (length (available p)),
      stat_active_count = totalActive p,
      stat_total_created = totalCreated p,
      stat_total_reused = totalReused p\<rparr>"

subsection \<open>Sequences of Get and Put\<close>

datatype pool_op = OpGet get_env | OpPut int "nat option"

fun run_ops :: "pool_op list \<Rightarrow> SileroVADPool \<Rightarrow> SileroVADPool option" where
  "run_ops [] p = Some p"
| "run_ops (OpGet env # ops) p =
     (case Get env p of None \<Rightarrow> None | Some (r, p') \<Rightarrow> run_ops ops p')"
| "run_ops (OpPut now instance # ops) p = run_ops ops (Put now p instance)"

text \<open>
  A sequence of operations on the pool, each running to its end before the next starts.
  \<open>Put\<close> may be given any pointer. The pool is quiescent when no instance is in use:
  every instance that a \<open>Get\<close> handed out has been returned by a \<open>Put\<close>.
\<close>

definition in_use_count :: "SileroVADPool \<Rightarrow> nat" where
  "in_use_count p = length (filter (\<lambda>i. inst_InUse i = 1) (store p))"

definition transient_outstanding :: "SileroVADPool \<Rightarrow> nat" where
  "transient_outstanding p =
     length (filter (\<lambda>i. inst_ID i = - 1 \<and> inst_InUse i = 1) (store p))"

definition quiescent :: "SileroVADPool \<Rightarrow> bool" where
  "quiescent p = (in_use_count p = 0)"

text \<open>
  The invariant of the pool between operations: the channel holds distinct instances of the
  store, none of them in use; the active counter is the number of instances in use; the
  channel is within its capacity; at most \<open>PoolSize\<close> instances are not transient; and the
  master list is no longer than the capacity, nor than the instances available or in use.
\<close>

definition pool_inv :: "SileroVADPool \<Rightarrow> bool" where
  "pool_inv p =
     (distinct (available p)
      \<and> (\<forall>a \<in> set (available p). a < length (store p) \<and> inst_InUse (store p ! a) = 0)
      \<and> totalActive p = int (in_use_count p)
      \<and> length (available p) \<le> PoolSize p
      \<and> length (filter (\<lambda>i. inst_ID i \<noteq> - 1) (store p)) \<le> PoolSize p
      \<and> length (instances p) \<le> PoolSize p
      \<and> length (instances p) \<le> length (available p) + in_use_count p)"

subsection \<open>Auxiliary notions and example states\<close>

text \<open>
  \<open>init_inv n k\<close> is what holds of the pool and the error list after the goroutines of
  the first \<open>k\<close> ids of a pool of size \<open>n\<close> have run. The example states are a pool of
  size 1 after \<open>Initialize\<close> and after each step of \<open>quiet_ops\<close> on it (a \<open>Get\<close> that
  takes the pooled instance, a \<open>Get\<close> that times out, and the two returns; \<open>pool_one_e\<close>
  is the state when the pooled instance is returned first, and \<open>pool_one_p\<close> is
  \<open>pool_one_b\<close> after the transient instance's detector was given a frame and has a
  finished segment waiting), and a pool of
  size 2 of which only the first detector could be constructed, before and after the same
  steps.
\<close>

definition init_inv :: "nat \<Rightarrow> nat \<Rightarrow> SileroVADPool \<times> pool_error list \<Rightarrow> bool" where
  "init_inv n k st =
     (case st of (p, errs) \<Rightarrow>
        PoolSize p = n \<and> length (store p) \<le> k
        \<and> available p = [0..<length (store p)]
        \<and> instances p = [0..<length (store p)]
        \<and> (\<forall>i \<in> set (store p). inst_InUse i = 0 \<and> inst_ID i \<noteq> - 1)
        \<and> totalActive p = 0)"

definition get_ok :: get_env where
  "get_ok = \<lparr>ge_now = 1, ge_vad_ok = True\<rparr>"

definition idle_instance :: "int \<Rightarrow> int \<Rightarrow> SileroVADInstance" where
  "idle_instance i t = \<lparr>inst_ID = i, inst_VAD = Some NewVoiceActivityDetector,
      inst_LastUsed = t, inst_InUse = 0\<rparr>"

definition pool_one :: SileroVADPool where
  "pool_one = \<lparr>store = [idle_instance 0 0], instances = [0], available = [0], PoolSize = 1,
      totalCreated = 1, totalReused = 0, totalActive = 0\<rparr>"

definition pool_one_a :: SileroVADPool where
  "pool_one_a = \<lparr>store = [(idle_instance 0 1)\<lparr>inst_InUse := 1\<rparr>], instances = [0],
      available = [], PoolSize = 1, totalCreated = 1, totalReused = 1, totalActive = 1\<rparr>"

definition pool_one_b :: SileroVADPool where
  "pool_one_b = \<lparr>store = [(idle_instance 0 1)\<lparr>inst_InUse := 1\<rparr>,
                           (idle_instance (- 1) 1)\<lparr>inst_InUse := 1\<rparr>],
      instances = [0], available = [], PoolSize = 1,
      totalCreated = 2, totalReused = 1, totalActive = 2\<rparr>"

definition pool_one_c :: SileroVADPool where
  "pool_one_c = \<lparr>store = [(idle_instance 0 1)\<lparr>inst_InUse := 1\<rparr>, idle_instance (- 1) 3],
      instances = [0], available = [1], PoolSize = 1,
      totalCreated = 2, totalReused = 1, totalActive = 1\<rparr>"

definition pool_one_d :: SileroVADPool where
  "pool_one_d = \<lparr>store = [(idle_instance 0 4)\<lparr>inst_VAD := None\<rparr>, idle_instance (- 1) 3],
      instances = [0], available = [1], PoolSize = 1,
      totalCreated = 2, totalReused = 1, totalActive = 0\<rparr>"

definition pool_one_e :: SileroVADPool where
  "pool_one_e = \<lparr>store = [idle_instance 0 3, (idle_instance (- 1) 1)\<lparr>inst_InUse := 1\<rparr>],
      instances = [0], available = [0], PoolSize = 1,
      totalCreated = 2, totalReused = 1, totalActive = 1\<rparr>"

definition pool_one_p :: SileroVADPool where
  "pool_one_p = \<lparr>store = [(idle_instance 0 1)\<lparr>inst_InUse := 1\<rparr>,
        \<lparr>inst_ID = - 1,
         inst_VAD = Some \<lparr>vad_accepted = [[0, 0]],
                          vad_queue = [Some \<lparr>seg_Start = 0, seg_Samples = [1, 2]\<rparr>]\<rparr>,
         inst_LastUsed = 1, inst_InUse = 1\<rparr>],
      instances = [0], available = [], PoolSize = 1,
      totalCreated = 2, totalReused = 1, totalActive = 2\<rparr>"

definition pool_partial :: SileroVADPool where
  "pool_partial = \<lparr>store = [idle_instance 0 0], instances = [0], available = [0], PoolSize = 2,
      totalCreated = 1, totalReused = 0, totalActive = 0\<rparr>"

definition pool_partial_d :: SileroVADPool where
  "pool_partial_d = \<lparr>store = [idle_instance 0 4, idle_instance (- 1) 3],
      instances = [0], available = [1, 0], PoolSize = 2,
      totalCreated = 2, totalReused = 1, totalActive = 0\<rparr>"

definition quiet_ops :: "pool_op list" where
  "quiet_ops = [OpGet get_ok, OpGet get_ok, OpPut 3 (Some 1), OpPut 4 (Some 0)]"

section \<open>Session manager (package session) and streaming endpoint (package ws)\<close>

text \<open>
  Conventions of this section.
  \<^item> A call runs to its end before the next one starts: the \<open>closed\<close> flag of a session,
    which the code reads atomically, does not change while a call is running.
  \<^item> What the environment decides during one call of \<open>ProcessAudioData\<close> is an input of
    the call: the clock, whether a new detector can be constructed, whether the detector
    answers within the response timeout, and the segments the detector finishes on the
    submitted waveform.
  \<^item> A session's \<open>VADInstance\<close> is a pointer into the pool's store. The manager's
    \<open>vadPool\<close> is the Silero pool, the only implementation of the pool interface that
    the factory registers.
  \<^item> \<open>float32\<close> and \<open>float64\<close> are \<open>real\<close>. The one place where this matters for a
    comparison is a division by a sample rate of 0, which in IEEE arithmetic gives an
    infinite duration; \<open>duration_lt\<close> and \<open>duration_gt\<close> spell that case out.
  \<^item> Recognition tasks run concurrently with everything else; a call returns the tasks it
    spawned.
\<close>

record Config =
  cfg_SendQueueSize :: nat
  cfg_SampleRate :: int
  cfg_NormalizeFactor :: real
  cfg_MinSpeechDuration :: real
  cfg_MaxSpeechDuration :: real
  cfg_MaxMessageSize :: int

datatype session_error =
    ErrSessionNotFound string
  | ErrSessionClosed string
  | ErrGetVAD string pool_error
  | ErrEmptyAudio
  | ErrInvalidLength nat
  | ErrInvalidInstanceType
  | ErrVADTimeout
  | ErrClosedDuringProcessing string
  | PanicNilDetector
  | PanicSliceBounds

datatype message =
    MsgConnection string
  | MsgFinal string int
  | MsgError session_error

record Session =
  sess_ID :: string
  sess_VADInstance :: "nat option"
  sess_LastSeen :: int
  sess_closed :: int
  sess_SendQueue :: "message list"
  sess_sendErrCount :: int
  sess_isInSpeech :: bool
  sess_currentSegment :: "real list"
  sess_silenceFrameCount :: int

record RecognitionTask =
  task_samples :: "real list"
  task_sampleRate :: int
  task_sessionID :: string
  task_index :: nat

record SessionManager =
  sessions :: "string \<rightharpoonup> Session"
  vadPool :: SileroVADPool
  totalSessions :: int
  activeSessions :: int
  totalMessages :: int

record audio_env =
  ae_now :: int
  ae_get :: get_env
  ae_vad_timeout :: bool
  ae_emitted :: "SpeechSegment option list"

subsection \<open>Conversion of the frame\<close>

text \<open>
  A sample is made of two bytes, the low one first: \<open>int16(lo) | int16(hi) << 8\<close>. It is
  read as a signed number and divided by the normalisation factor.
\<close>

definition pcm_sample :: "8 word \<Rightarrow> 8 word \<Rightarrow> 16 word" where
  "pcm_sample lo hi = (ucast lo) OR (push_bit 8 (ucast hi))"

fun convert :: "real \<Rightarrow> 8 word list \<Rightarrow> real list" where
  "convert normalizeFactor (lo # hi # rest) =
     (real_of_int (sint (pcm_sample lo hi)) / normalizeFactor) # convert normalizeFactor rest"
| "convert normalizeFactor rest = []"

subsection \<open>processSileroVAD\<close>

text \<open>
  \<open>go_int\<close> is Go's conversion \<open>int(x)\<close> of a float, which truncates towards zero.
\<close>

definition go_int :: "real \<Rightarrow> int" where
  "go_int x = (if x \<ge> 0 then \<lfloor>x\<rfloor> else \<lceil>x\<rceil>)"

definition duration_lt :: "nat \<Rightarrow> int \<Rightarrow> real \<Rightarrow> bool" where
  "duration_lt n sampleRate d =
     (if sampleRate = 0 \<and> n > 0 then False else real n / real_of_int sampleRate < d)"

definition duration_gt :: "nat \<Rightarrow> int \<Rightarrow> real \<Rightarrow> bool" where
  "duration_gt n sampleRate d =
     (if sampleRate = 0 \<and> n > 0 then True else real n / real_of_int sampleRate > d)"

text \<open>
  The loop that drains the detector's queue. It returns the collected segments, or the error
  it stopped with, and what is left in the queue. The slice expression
  \<open>segment.Samples[:maxSamples]\<close> panics when \<open>maxSamples\<close> is negative or beyond the
  segment.
\<close>

fun collect :: "Config \<Rightarrow> Session \<Rightarrow> SpeechSegment option list \<Rightarrow> real list list
    \<Rightarrow> (session_error + real list list) \<times> SpeechSegment option list" where
  "collect cfg session [] speechSegments = (Inr speechSegments, [])"
| "collect cfg session (None # queue) speechSegments = collect cfg session queue speechSegments"
| "collect cfg session (Some segment # queue) speechSegments =
     (if length (seg_Samples segment) > 0
      then if sess_closed session = 1
           then (Inl (ErrClosedDuringProcessing (sess_ID session)), queue)
           else if duration_lt (length (seg_Samples segment)) (cfg_SampleRate cfg)
                     (cfg_MinSpeechDuration cfg)
           then collect cfg session queue speechSegments
           else if duration_gt (length (seg_Samples segment)) (cfg_SampleRate cfg)
                     (cfg_MaxSpeechDuration cfg)
           then (if go_int (cfg_MaxSpeechDuration cfg * real_of_int (cfg_SampleRate cfg)) < 0
                    \<or> go_int (cfg_MaxSpeechDuration cfg * real_of_int (cfg_SampleRate cfg))
                        > int (length (seg_Samples segment))
                 then (Inl PanicSliceBounds, queue)
                 else collect cfg session queue
                        (speechSegments @
                           [take (nat (go_int (cfg_MaxSpeechDuration cfg
                                                 * real_of_int (cfg_SampleRate cfg))))
                              (seg_Samples segment)]))
           else collect cfg session queue (speechSegments @ [seg_Samples segment])
      else collect cfg session queue speechSegments)"

definition spawn :: "Config \<Rightarrow> string \<Rightarrow> real list list \<Rightarrow> RecognitionTask list" where
  "spawn cfg sessionID speechSegments =
     map (\<lambda>(i, samples). \<lparr>task_samples = samples, task_sampleRate = cfg_SampleRate cfg,
                           task_sessionID = sessionID, task_index = i\<rparr>)
         (enumerate 0 speechSegments)"

definition set_detector :: "SileroVADPool \<Rightarrow> nat \<Rightarrow> VoiceActivityDetector \<Rightarrow> SileroVADPool" where
  "set_detector pool a vad =
     pool\<lparr>store := (store pool)[a := (store pool ! a)\<lparr>inst_VAD := Some vad\<rparr>]\<rparr>"

definition processSileroVAD :: "Config \<Rightarrow> audio_env \<Rightarrow> SileroVADPool \<Rightarrow> Session \<Rightarrow> string
    \<Rightarrow> real list \<Rightarrow> session_error option \<times> SileroVADPool \<times> RecognitionTask list" where
  "processSileroVAD cfg env pool session sessionID float32Slice =
     (case sess_VADInstance session of
        None \<Rightarrow> (Some ErrInvalidInstanceType, pool, [])
      | Some a \<Rightarrow>
          (case inst_VAD (store pool ! a) of
             None \<Rightarrow> (Some PanicNilDetector, pool, [])
           | Some vad \<Rightarrow>
               let vad1 = vad\<lparr>vad_accepted := vad_accepted vad @ [float32Slice],
                              vad_queue := vad_queue vad @ ae_emitted env\<rparr>
               in if ae_vad_timeout env
                  then (Some ErrVADTimeout, set_detector pool a vad1, [])
                  else (case collect cfg session (vad_queue vad1) [] of
                          (Inl err, queue) \<Rightarrow>
                            (Some err, set_detector pool a (vad1\<lparr>vad_queue := queue\<rparr>), [])
                        | (Inr speechSegments, queue) \<Rightarrow>
                            (None, set_detector pool a (vad1\<lparr>vad_queue := queue\<rparr>),
                             spawn cfg sessionID speechSegments))))"

subsection \<open>ProcessAudioData\<close>

text \<open>
  \<open>acquireVAD\<close> is the lazy acquisition at the head of \<open>ProcessAudioData\<close>, and
  \<open>process_frame\<close> is the rest of the function from the update of the activity time on.
  \<open>ProcessAudioData\<close> is partial because \<open>Get\<close> is.
\<close>

definition acquireVAD :: "audio_env \<Rightarrow> SessionManager \<Rightarrow> string \<Rightarrow> Session
    \<Rightarrow> ((session_error + Session) \<times> SessionManager) option" where
  "acquireVAD env m sessionID session =
     (case sess_VADInstance session of
        Some a \<Rightarrow> Some (Inr session, m)
      | None \<Rightarrow>
          (case Get (ae_get env) (vadPool m) of
             None \<Rightarrow> None
           | Some (Inl err, pool) \<Rightarrow> Some (Inl (ErrGetVAD sessionID err), m\<lparr>vadPool := pool\<rparr>)
           | Some (Inr a, pool) \<Rightarrow>
               Some (Inr (session\<lparr>sess_VADInstance := Some a\<rparr>),
                     m\<lparr>vadPool := pool,
                       sessions := (sessions m)(sessionID \<mapsto> session\<lparr>sess_VADInstance := Some a\<rparr>)\<rparr>)))"

definition process_frame :: "Config \<Rightarrow> audio_env \<Rightarrow> SessionManager \<Rightarrow> string \<Rightarrow> Session
    \<Rightarrow> 8 word list \<Rightarrow> session_error option \<times> SessionManager \<times> RecognitionTask list" where
  "process_frame cfg env m sessionID session audioData =
     (let session1 = session\<lparr>sess_LastSeen := ae_now env\<rparr>;
          m1 = m\<lparr>sessions := (sessions m)(sessionID \<mapsto> session1),
                 totalMessages := totalMessages m + 1\<rparr>
      in if length audioData = 0 then (Some ErrEmptyAudio, m1, [])
         else if length audioData mod 2 \<noteq> 0
         then (Some (ErrInvalidLength (length audioData)), m1, [])
         else (case processSileroVAD cfg env (vadPool m1) session1 sessionID
                      (convert (cfg_NormalizeFactor cfg) audioData) of
                 (err, pool, tasks) \<Rightarrow> (err, m1\<lparr>vadPool := pool\<rparr>, tasks)))"

definition ProcessAudioData :: "Config \<Rightarrow> audio_env \<Rightarrow> SessionManager \<Rightarrow> string \<Rightarrow> 8 word list
    \<Rightarrow> (session_error option \<times> SessionManager \<times> RecognitionTask list) option" where
  "ProcessAudioData cfg env m sessionID audioData =
     (case sessions m sessionID of
        None \<Rightarrow> Some (Some (ErrSessionNotFound sessionID), m, [])
      | Some s \<Rightarrow>
          let session = s\<lparr>sess_LastSeen := ae_now env\<rparr>;
              m0 = m\<lparr>sessions := (sessions m)(sessionID \<mapsto> session)\<rparr>
          in if sess_closed session = 1
             then Some (Some (ErrSessionClosed sessionID), m0, [])
             else (case acquireVAD env m0 sessionID session of
                     None \<Rightarrow> None
                   | Some (Inl err, m1) \<Rightarrow> Some (Some err, m1, [])
                   | Some (Inr session1, m1) \<Rightarrow>
                       Some (process_frame cfg env m1 sessionID session1 audioData)))"

subsection \<open>The read loop of HandleWebSocket\<close>

text \<open>
  \<open>enqueue\<close> is the non-blocking send on the session's queue. \<open>handle_message\<close> is the body
  of the read loop for one message that was read; beside the new state and the spawned tasks
  it reports whether it called \<open>ProcessAudioData\<close> and with what result.
\<close>

definition enqueue :: "Config \<Rightarrow> SessionManager \<Rightarrow> string \<Rightarrow> message \<Rightarrow> SessionManager" where
  "enqueue cfg m sessionID msg =
     (case sessions m sessionID of
        None \<Rightarrow> m
      | Some sess \<Rightarrow>
          if length (sess_SendQueue sess) < cfg_SendQueueSize cfg
          then m\<lparr>sessions := (sessions m)
                   (sessionID \<mapsto> sess\<lparr>sess_SendQueue := sess_SendQueue sess @ [msg]\<rparr>)\<rparr>
          else m)"

datatype loop_step = Break | Continue

record handled =
  h_step :: loop_step
  h_manager :: SessionManager
  h_tasks :: "RecognitionTask list"
  h_called :: "session_error option option"

definition handle_message :: "Config \<Rightarrow> audio_env \<Rightarrow> SessionManager \<Rightarrow> string \<Rightarrow> 8 word list
    \<Rightarrow> handled option" where
  "handle_message cfg env m sessionID message =
     (if cfg_MaxMessageSize cfg > 0 \<and> int (length message) > cfg_MaxMessageSize cfg
      then Some \<lparr>h_step = Break, h_manager = m, h_tasks = [], h_called = None\<rparr>
      else if length message > 0
      then (case ProcessAudioData cfg env m sessionID message of
              None \<Rightarrow> None
            | Some (Some err, m1, tasks) \<Rightarrow>
                Some \<lparr>h_step = Continue, h_manager = enqueue cfg m1 sessionID (MsgError err),
                      h_tasks = tasks, h_called = Some (Some err)\<rparr>
            | Some (None, m1, tasks) \<Rightarrow>
                Some \<lparr>h_step = Continue, h_manager = m1, h_tasks = tasks,
                      h_called = Some None\<rparr>)
      else Some \<lparr>h_step = Continue, h_manager = m, h_tasks = [], h_called = None\<rparr>)"

datatype ws_event = Frame audio_env "8 word list" | ReadError

fun read_loop :: "Config \<Rightarrow> string \<Rightarrow> ws_event list \<Rightarrow> SessionManager
    \<Rightarrow> (SessionManager \<times> RecognitionTask list) option" where
  "read_loop cfg sessionID [] m = Some (m, [])"
| "read_loop cfg sessionID (ReadError # events) m = Some (m, [])"
| "read_loop cfg sessionID (Frame env message # events) m =
     (case handle_message cfg env m sessionID message of
        None \<Rightarrow> None
      | Some h \<Rightarrow>
          (case h_step h of
             Break \<Rightarrow> Some (h_manager h, h_tasks h)
           | Continue \<Rightarrow>
               (case read_loop cfg sessionID events (h_manager h) of
                  None \<Rightarrow> None
                | Some (m', tasks) \<Rightarrow> Some (m', h_tasks h @ tasks))))"

definition accepted_total :: "SileroVADPool \<Rightarrow> real list list" where
  "accepted_total pool =
     concat (map (\<lambda>i. case inst_VAD i of None \<Rightarrow> [] | Some vad \<Rightarrow> vad_accepted vad)
                 (store pool))"

subsection \<open>The specification's rule for one segment, and example states\<close>

text \<open>
  \<open>segment_tasks\<close> is written from the specification's words: a segment is discarded if
  its length is below \<open>min_speech_duration * sampleRate\<close>, truncated to the maximum if its
  length is above \<open>max_speech_duration * sampleRate\<close>, and submitted to recognition as one
  task. The example configuration has a sample rate of 4, so that half a second is 2 samples
  and one second is 4.
\<close>

definition segment_tasks :: "Config \<Rightarrow> SpeechSegment option \<Rightarrow> real list list" where
  "segment_tasks cfg seg =
     (case seg of
        None \<Rightarrow> []
      | Some segment \<Rightarrow>
          if length (seg_Samples segment) = 0 then []
          else if real (length (seg_Samples segment))
                    < cfg_MinSpeechDuration cfg * real_of_int (cfg_SampleRate cfg)
          then []
          else if real (length (seg_Samples segment))
                    > cfg_MaxSpeechDuration cfg * real_of_int (cfg_SampleRate cfg)
          then [take (nat \<lfloor>cfg_MaxSpeechDuration cfg * real_of_int (cfg_SampleRate cfg)\<rfloor>)
                  (seg_Samples segment)]
          else [seg_Samples segment])"

definition cfg_ex :: Config where
  "cfg_ex = \<lparr>cfg_SendQueueSize = 2, cfg_SampleRate = 4, cfg_NormalizeFactor = 32768,
      cfg_MinSpeechDuration = 1 / 2, cfg_MaxSpeechDuration = 1, cfg_MaxMessageSize = 8\<rparr>"

definition seg_short :: SpeechSegment where
  "seg_short = \<lparr>seg_Start = 0, seg_Samples = [1]\<rparr>"

definition seg_long :: SpeechSegment where
  "seg_long = \<lparr>seg_Start = 10, seg_Samples = [1, 2, 3, 4, 5, 6]\<rparr>"

definition seg_mid :: SpeechSegment where
  "seg_mid = \<lparr>seg_Start = 20, seg_Samples = [7, 8, 9]\<rparr>"

definition env_ex :: audio_env where
  "env_ex = \<lparr>ae_now = 5, ae_get = get_ok, ae_vad_timeout = False,
      ae_emitted = [Some seg_short, Some seg_long, Some seg_mid]\<rparr>"

definition session_ex :: Session where
  "session_ex = \<lparr>sess_ID = ''s1'', sess_VADInstance = Some 0, sess_LastSeen = 0,
      sess_closed = 0, sess_SendQueue = [], sess_sendErrCount = 0, sess_isInSpeech = False,
      sess_currentSegment = [], sess_silenceFrameCount = 0\<rparr>"

definition manager_ex :: SessionManager where
  "manager_ex = \<lparr>sessions = [''s1'' \<mapsto> session_ex], vadPool = pool_one_a,
      totalSessions = 1, activeSessions = 1, totalMessages = 0\<rparr>"

text \<open>
  A second session that has not sent any audio yet, beside the first one, which holds the
  only pooled instance; and an environment in which no new detector can be built.
\<close>

definition session_new :: Session where
  "session_new = \<lparr>sess_ID = ''s2'', sess_VADInstance = None, sess_LastSeen = 0,
      sess_closed = 0, sess_SendQueue = [], sess_sendErrCount = 0, sess_isInSpeech = False,
      sess_currentSegment = [], sess_silenceFrameCount = 0\<rparr>"

definition manager_two :: SessionManager where
  "manager_two = \<lparr>sessions = [''s1'' \<mapsto> session_ex, ''s2'' \<mapsto> session_new],
      vadPool = pool_one_a, totalSessions = 2, activeSessions = 2, totalMessages = 0\<rparr>"

definition env_no_vad :: audio_env where
  "env_no_vad = \<lparr>ae_now = 5, ae_get = \<lparr>ge_now = 5, ge_vad_ok = False\<rparr>,
      ae_vad_timeout = False, ae_emitted = []\<rparr>"

section \<open>Verification of the speaker manager\<close>

subsection \<open>Lemmas\<close>

lemma cos_loop_sum:
  "i \<le> length a \<Longrightarrow> cos_loop a b i (d, na, nb) =
     (d + (\<Sum>k = i..<length a. a ! k * b ! k),
      na + (\<Sum>k = i..<length a. a ! k * a ! k),
      nb + (\<Sum>k = i..<length a. b ! k * b ! k))"
proof (induction a b i "(d, na, nb)" arbitrary: d na nb rule: cos_loop.induct)
  case (1 a b i d na nb)
  show ?case
  proof (cases "i < length a")
    case True
    then show ?thesis
      using "1.hyps"[OF True]
      by (subst cos_loop.simps) (simp add: sum.atLeast_Suc_lessThan add.assoc)
  next
    case False
    with "1.prems" show ?thesis by (subst cos_loop.simps) simp
  qed
qed

lemma cosineSimilarity_spec: "cosineSimilarity a b = cosine_spec a b"
  by (auto simp: cosineSimilarity_def cosine_spec_def cos_loop_sum norm2_def dot_def atLeast0LessThan)

lemma sim_loop_fold: "sim_loop q es mx = fold max (map (cosineSimilarity q) es) mx"
  by (induction es arbitrary: mx) (simp_all add: Let_def max_def)

lemma sim_loop_Max: "sim_loop q es mx = Max (insert mx (cosineSimilarity q ` set es))"
proof -
  have "Max (set (mx # map (cosineSimilarity q) es)) = fold max (map (cosineSimilarity q) es) mx"
    by (rule Max.set_eq_fold)
  then show ?thesis by (simp add: sim_loop_fold)
qed

lemma sim_loop_ge: "mx \<le> sim_loop q es mx"
  by (simp add: sim_loop_Max)

lemma extractEmbedding_cong:
  "extractor m' = extractor m \<Longrightarrow> extractEmbedding m' a sr = extractEmbedding m a sr"
  by (simp add: extractEmbedding_def)

lemma saveDatabase_eq:
  "saveDatabase env m fs =
     (save_error env,
      m\<lparr>database := (database m)\<lparr>db_UpdatedAt := env_now env\<rparr>\<rparr>,
      saved_files env fs (dbPath m) ((database m)\<lparr>db_UpdatedAt := env_now env\<rparr>))"
  by (cases "env_write env")
     (simp_all add: saveDatabase_def WriteFile_def save_error_def saved_files_def Let_def)

lemma save_error_None:
  "(save_error env = None) = (env_marshal_ok env \<and> env_write env = WriteOk)"
  by (simp add: save_error_def)

lemma saved_files_ok:
  "env_marshal_ok env \<Longrightarrow> env_write env = WriteOk \<Longrightarrow>
     saved_files env fs path db = fs(path \<mapsto> Doc db)"
  by (simp add: saved_files_def WriteFile_def)

lemma save_error_Some:
  assumes "save_error env = Some e"
  shows "e = ErrMarshal \<and> \<not> env_marshal_ok env \<and> saved_files env fs path db = fs
       \<or> e = ErrWriteFile \<and> env_marshal_ok env \<and> env_write env \<noteq> WriteOk
           \<and> (saved_files env fs path db = fs \<or> saved_files env fs path db = fs(path \<mapsto> Garbage))"
  using assms
  by (cases "env_write env")
     (auto simp: save_error_def saved_files_def WriteFile_def split: if_splits)

lemma save_error_if:
  "map_option ErrSaveDatabase (save_error env) =
     (if \<not> env_marshal_ok env then Some (ErrSaveDatabase ErrMarshal)
      else if env_write env = WriteOk then None else Some (ErrSaveDatabase ErrWriteFile))"
  by (simp add: save_error_def)

lemma RegisterSpeaker_Inl:
  "extractEmbedding m a sr = Inl err \<Longrightarrow>
     RegisterSpeaker env m fs sid name a sr = (Some (ErrExtractEmbedding err), m, fs)"
  by (simp add: RegisterSpeaker_def)

lemma RegisterSpeaker_Inr:
  "extractEmbedding m a sr = Inr e \<Longrightarrow>
     RegisterSpeaker env m fs sid name a sr =
       (if \<not> env_RegisterV_ok env
        then (Some ErrRegisterMemory,
              m\<lparr>database := (database m)
                 \<lparr>db_Speakers := (db_Speakers (database m))(sid \<mapsto> registered_record env m sid name e)\<rparr>\<rparr>,
              fs)
        else (map_option ErrSaveDatabase (save_error env),
              m\<lparr>manager := (manager m)(sid \<mapsto> sd_Embeddings (registered_record env m sid name e)),
                database := (database m)
                 \<lparr>db_Speakers := (db_Speakers (database m))(sid \<mapsto> registered_record env m sid name e),
                  db_UpdatedAt := env_now env\<rparr>\<rparr>,
              saved_files env fs (dbPath m) ((database m)
                 \<lparr>db_Speakers := (db_Speakers (database m))(sid \<mapsto> registered_record env m sid name e),
                  db_UpdatedAt := env_now env\<rparr>)))"
  by (cases "save_error env")
     (simp_all add: RegisterSpeaker_def registered_record_def saveDatabase_eq Let_def)

lemma RegisterSpeaker_extractor:
  "RegisterSpeaker env m fs sid name a sr = (r, m', fs') \<Longrightarrow> extractor m' = extractor m"
  by (cases "extractEmbedding m a sr")
     (auto simp: RegisterSpeaker_Inl RegisterSpeaker_Inr split: if_splits)

lemma RegisterSpeaker_record:
  assumes "extractEmbedding m a sr = Inr e"
      and "RegisterSpeaker env m fs sid name a sr = (r, m', fs')"
  shows "db_Speakers (database m') sid = Some (registered_record env m sid name e)"
  using assms(2) by (auto simp: RegisterSpeaker_Inr [OF assms(1)] split: if_splits)

lemma DeleteSpeaker_None:
  "db_Speakers (database m) sid = None \<Longrightarrow>
     DeleteSpeaker env m fs sid = (Some (ErrSpeakerNotFound sid), m, fs)"
  by (simp add: DeleteSpeaker_def)

lemma DeleteSpeaker_Some:
  "db_Speakers (database m) sid = Some sd \<Longrightarrow>
     DeleteSpeaker env m fs sid =
       (map_option ErrSaveDatabase (save_error env),
        m\<lparr>manager := (manager m)(sid := None),
          database := (database m)
            \<lparr>db_Speakers := (db_Speakers (database m))(sid := None),
             db_UpdatedAt := env_now env\<rparr>\<rparr>,
        saved_files env fs (dbPath m) ((database m)
            \<lparr>db_Speakers := (db_Speakers (database m))(sid := None),
             db_UpdatedAt := env_now env\<rparr>))"
  by (cases "save_error env") (simp_all add: DeleteSpeaker_def saveDatabase_eq Let_def)

lemma registered_record_fields:
  "sd_Embeddings (registered_record env m sid name e)
     = (case db_Speakers (database m) sid of None \<Rightarrow> [] | Some sd \<Rightarrow> sd_Embeddings sd) @ [e]"
  "sd_SampleCount (registered_record env m sid name e)
     = (case db_Speakers (database m) sid of None \<Rightarrow> 0 | Some sd \<Rightarrow> sd_SampleCount sd) + 1"
  "sd_Name (registered_record env m sid name e) = name"
  by (simp_all add: registered_record_def Let_def split: option.splits)

lemma registered_record_embeddings:
  "sd_Embeddings (registered_record env m sid name e) \<noteq>
     (case db_Speakers (database m) sid of Some sd \<Rightarrow> sd_Embeddings sd | None \<Rightarrow> [])"
  by (simp add: registered_record_def Let_def split: option.splits)

lemma registered_record_new:
  "db_Speakers (database m) sid \<noteq> Some (registered_record env m sid name e)"
  using registered_record_embeddings [of env m sid name e]
  by (auto split: option.splits)

lemma index_agrees_upd:
  "index_agrees m \<Longrightarrow>
   index_agrees (m\<lparr>manager := (manager m)(sid \<mapsto> sd_Embeddings sd),
       database := (database m)\<lparr>db_Speakers := (db_Speakers (database m))(sid \<mapsto> sd),
                                db_UpdatedAt := t\<rparr>\<rparr>)"
  by (simp add: index_agrees_def)

lemma index_agrees_del:
  "index_agrees m \<Longrightarrow>
   index_agrees (m\<lparr>manager := (manager m)(sid := None),
       database := (database m)\<lparr>db_Speakers := (db_Speakers (database m))(sid := None),
                                db_UpdatedAt := t\<rparr>\<rparr>)"
  by (simp add: index_agrees_def fun_eq_iff)

lemma RegisterSpeaker_persist:
  assumes "RegisterSpeaker env m fs sid name audio sr = (r, m', fs')"
  shows "(r = None \<longrightarrow> env_marshal_ok env \<and> env_write env = WriteOk
            \<and> fs' = fs(dbPath m \<mapsto> Doc (database m')) \<and> persisted m' fs'
            \<and> (index_agrees m \<longrightarrow> index_agrees m'))
       \<and> (\<forall>e. r = Some (ErrSaveDatabase e) \<longrightarrow>
             (e = ErrMarshal \<and> \<not> env_marshal_ok env \<and> fs' = fs
              \<or> e = ErrWriteFile \<and> env_marshal_ok env \<and> env_write env \<noteq> WriteOk
                  \<and> (fs' = fs \<or> fs' = fs(dbPath m \<mapsto> Garbage)))
             \<and> db_Speakers (database m') sid \<noteq> db_Speakers (database m) sid)"
proof (cases "extractEmbedding m audio sr")
  case (Inl err)
  with assms show ?thesis by (auto simp: RegisterSpeaker_Inl)
next
  case (Inr e)
  note neq = registered_record_new [of m sid env name e]
  let ?db = "(database m)
       \<lparr>db_Speakers := (db_Speakers (database m))(sid \<mapsto> registered_record env m sid name e),
        db_UpdatedAt := env_now env\<rparr>"
  show ?thesis
  proof (cases "env_RegisterV_ok env")
    case False
    with assms Inr show ?thesis by (auto simp: RegisterSpeaker_Inr)
  next
    case True
    show ?thesis
    proof (cases "save_error env")
      case None
      then have ok: "env_marshal_ok env" "env_write env = WriteOk"
        by (simp_all add: save_error_None)
      from assms Inr True None ok
      show ?thesis
        by (auto simp: RegisterSpeaker_Inr persisted_def index_agrees_upd saved_files_ok [OF ok])
    next
      case (Some e)
      from save_error_Some [OF Some, of fs "dbPath m" ?db] assms Inr True Some neq
      show ?thesis
        by (auto simp: RegisterSpeaker_Inr)
    qed
  qed
qed

lemma DeleteSpeaker_persist:
  assumes "DeleteSpeaker env m fs sid = (r, m', fs')"
  shows "(r = None \<longrightarrow> env_marshal_ok env \<and> env_write env = WriteOk
            \<and> fs' = fs(dbPath m \<mapsto> Doc (database m')) \<and> persisted m' fs'
            \<and> (index_agrees m \<longrightarrow> index_agrees m'))
       \<and> (\<forall>e. r = Some (ErrSaveDatabase e) \<longrightarrow>
             (e = ErrMarshal \<and> \<not> env_marshal_ok env \<and> fs' = fs
              \<or> e = ErrWriteFile \<and> env_marshal_ok env \<and> env_write env \<noteq> WriteOk
                  \<and> (fs' = fs \<or> fs' = fs(dbPath m \<mapsto> Garbage)))
             \<and> db_Speakers (database m') sid \<noteq> db_Speakers (database m) sid)"
proof (cases "db_Speakers (database m) sid")
  case None
  with assms show ?thesis by (auto simp: DeleteSpeaker_None)
next
  case (Some sd)
  let ?db = "(database m)
       \<lparr>db_Speakers := (db_Speakers (database m))(sid := None), db_UpdatedAt := env_now env\<rparr>"
  show ?thesis
  proof (cases "save_error env")
    case None
    then have ok: "env_marshal_ok env" "env_write env = WriteOk"
      by (simp_all add: save_error_None)
    from assms Some None ok
    show ?thesis
      by (auto simp: DeleteSpeaker_Some persisted_def index_agrees_del saved_files_ok [OF ok])
  next
    case err: (Some e)
    from save_error_Some [OF err, of fs "dbPath m" ?db] assms Some err
    show ?thesis
      by (auto simp: DeleteSpeaker_Some)
  qed
qed

lemma RegisterSpeaker_forward:
  assumes "RegisterSpeaker env m fs sid name audio sr = (r, m', fs')"
      and "extractEmbedding m audio sr = Inr e" and "env_RegisterV_ok env"
  shows "r = (if \<not> env_marshal_ok env then Some (ErrSaveDatabase ErrMarshal)
              else if env_write env = WriteOk then None
              else Some (ErrSaveDatabase ErrWriteFile))
       \<and> (\<exists>sd'. db_Speakers (database m') sid = Some sd'
              \<and> sd_Embeddings sd'
                  = (case db_Speakers (database m) sid of
                       None \<Rightarrow> [] | Some sd \<Rightarrow> sd_Embeddings sd) @ [e]
              \<and> sd_SampleCount sd'
                  = (case db_Speakers (database m) sid of
                       None \<Rightarrow> 0 | Some sd \<Rightarrow> sd_SampleCount sd) + 1
              \<and> sd_Name sd' = name
              \<and> manager m' sid = Some (sd_Embeddings sd'))"
  using assms(1,3)
  by (auto simp: RegisterSpeaker_Inr [OF assms(2)] save_error_if registered_record_fields)

lemma DeleteSpeaker_forward:
  assumes "DeleteSpeaker env m fs sid = (r, m', fs')"
      and "db_Speakers (database m) sid = Some sd"
  shows "r = (if \<not> env_marshal_ok env then Some (ErrSaveDatabase ErrMarshal)
              else if env_write env = WriteOk then None
              else Some (ErrSaveDatabase ErrWriteFile))
       \<and> db_Speakers (database m') sid = None \<and> manager m' sid = None"
  using assms(1)
  by (auto simp: DeleteSpeaker_Some [OF assms(2)] save_error_if)

lemma extract_m0: "extractEmbedding m0 [1, 0, 5] 16000 = Inr [1, 0]"
  by (simp add: extractEmbedding_def m0_def ex0_def)


lemma register_m0_ok:
  "RegisterSpeaker env_ok m0 fs0 ''u1'' ''Alice'' [1, 0, 5] 16000
     = (None, m_alice, fs0(''data/speaker.json'' \<mapsto> Doc (database m_alice)))"
  by (subst RegisterSpeaker_Inr [OF extract_m0])
     (simp add: registered_record_def env_ok_def m_alice_def m0_def db0_def sd_alice_def
        save_error_def saved_files_def WriteFile_def)

lemma register_m0_open_failed:
  "RegisterSpeaker env_open_failed m0 fs0 ''u1'' ''Alice'' [1, 0, 5] 16000
     = (Some (ErrSaveDatabase ErrWriteFile), m_alice, fs0)"
  by (subst RegisterSpeaker_Inr [OF extract_m0])
     (simp add: registered_record_def env_open_failed_def m_alice_def m0_def db0_def
        sd_alice_def save_error_def saved_files_def WriteFile_def)

lemma register_m0_marshal_failed:
  "RegisterSpeaker env_marshal_failed m0 fs0 ''u1'' ''Alice'' [1, 0, 5] 16000
     = (Some (ErrSaveDatabase ErrMarshal), m_alice, fs0)"
  by (subst RegisterSpeaker_Inr [OF extract_m0])
     (simp add: registered_record_def env_marshal_failed_def m_alice_def m0_def db0_def
        sd_alice_def save_error_def saved_files_def WriteFile_def)

lemma delete_alice_open_failed:
  "DeleteSpeaker env_open_failed m_alice fs0 ''u1''
     = (Some (ErrSaveDatabase ErrWriteFile),
        m_alice\<lparr>manager := (manager m_alice)(''u1'' := None),
          database := (database m_alice)
            \<lparr>db_Speakers := (db_Speakers (database m_alice))(''u1'' := None),
             db_UpdatedAt := 7\<rparr>\<rparr>,
        fs0)"
proof -
  have "db_Speakers (database m_alice) ''u1'' = Some sd_alice"
    by (simp add: m_alice_def)
  from DeleteSpeaker_Some [OF this, of env_open_failed fs0] show ?thesis
    by (simp add: env_open_failed_def save_error_def saved_files_def WriteFile_def)
qed

subsection \<open>The claims\<close>

text \<open>
  Claim C2, as stated, fails. Starting from a manager whose file holds its database,
  a registration whose write fails at the open returns the persistence error while the
  in-memory database already holds the new record, so the file no longer holds the
  in-memory database. A registration whose write fails after the truncation leaves the
  database file itself with bytes that are no database: the file is written in place.
\<close>

theorem persist_counterexample:
  "persisted m0 fs0 \<and> index_agrees m0
   \<and> fst (RegisterSpeaker env_open_failed m0 fs0 ''u1'' ''Alice'' [1, 0, 5] 16000)
        = Some (ErrSaveDatabase ErrWriteFile)
   \<and> \<not> persisted (fst (snd (RegisterSpeaker env_open_failed m0 fs0 ''u1'' ''Alice'' [1, 0, 5] 16000)))
                   (snd (snd (RegisterSpeaker env_open_failed m0 fs0 ''u1'' ''Alice'' [1, 0, 5] 16000)))
   \<and> snd (snd (RegisterSpeaker env_truncated m0 fs0 ''u1'' ''Alice'' [1, 0, 5] 16000))
        ''data/speaker.json'' = Some Garbage"
proof -
  have a: "persisted m0 fs0"
    by (simp add: persisted_def m0_def fs0_def)
  have b: "index_agrees m0"
    by (simp add: index_agrees_def m0_def db0_def)
  note c = register_m0_open_failed
  have d: "\<not> persisted m_alice fs0"
  proof
    assume "persisted m_alice fs0"
    then have "database m_alice = db0"
      by (auto simp: persisted_def fs0_def m_alice_def m0_def)
    then have "db_Speakers (database m_alice) ''u1'' = db_Speakers db0 ''u1''"
      by simp
    then show False
      by (simp add: m_alice_def db0_def)
  qed
  have e: "snd (snd (RegisterSpeaker env_truncated m0 fs0 ''u1'' ''Alice'' [1, 0, 5] 16000))
        ''data/speaker.json'' = Some Garbage"
    by (subst RegisterSpeaker_Inr [OF extract_m0])
       (simp add: env_truncated_def m0_def saved_files_def WriteFile_def)
  from a b c d e show ?thesis by simp
qed

text \<open>
  Claim C2, amended. After every \<open>RegisterSpeaker\<close> or \<open>DeleteSpeaker\<close> that returns
  without error, the database has been marshalled and written in place to the database path
  and nothing else of the file system has changed; the file holds the in-memory database,
  and the index agrees with the database if it did before. An operation that returns the
  persistence error failed in the marshalling, with the file system as before, or in the
  write, with the file system as before or the database file truncated; the in-memory
  record of the speaker has changed all the same. Conversely, a \<open>RegisterSpeaker\<close> whose
  embedding is extracted and accepted by the index, and a \<open>DeleteSpeaker\<close> of a speaker
  that exists, return no error exactly when the marshalling and the write succeed and the
  persistence error otherwise, and in every case they leave the mutation in memory: the
  record with the embedding appended, the sample count incremented and the name set, and
  its vectors in the index, or no record and no entry in the index.
\<close>

theorem mutating_ops_write_in_place:
  assumes "res = RegisterSpeaker env m fs sid name audio sr \<or> res = DeleteSpeaker env m fs sid"
      and "res = (r, m', fs')"
  shows "(r = None \<longrightarrow> env_marshal_ok env \<and> env_write env = WriteOk
            \<and> fs' = fs(dbPath m \<mapsto> Doc (database m')) \<and> persisted m' fs'
            \<and> (index_agrees m \<longrightarrow> index_agrees m'))
       \<and> (\<forall>e. r = Some (ErrSaveDatabase e) \<longrightarrow>
             (e = ErrMarshal \<and> \<not> env_marshal_ok env \<and> fs' = fs
              \<or> e = ErrWriteFile \<and> env_marshal_ok env \<and> env_write env \<noteq> WriteOk
                  \<and> (fs' = fs \<or> fs' = fs(dbPath m \<mapsto> Garbage)))
             \<and> db_Speakers (database m') sid \<noteq> db_Speakers (database m) sid)
       \<and> (\<forall>e. res = RegisterSpeaker env m fs sid name audio sr
               \<and> extractEmbedding m audio sr = Inr e \<and> env_RegisterV_ok env \<longrightarrow>
             r = (if \<not> env_marshal_ok env then Some (ErrSaveDatabase ErrMarshal)
                  else if env_write env = WriteOk then None
                  else Some (ErrSaveDatabase ErrWriteFile))
             \<and> (\<exists>sd'. db_Speakers (database m') sid = Some sd'
                    \<and> sd_Embeddings sd'
                        = (case db_Speakers (database m) sid of
                             None \<Rightarrow> [] | Some sd \<Rightarrow> sd_Embeddings sd) @ [e]
                    \<and> sd_SampleCount sd'
                        = (case db_Speakers (database m) sid of
                             None \<Rightarrow> 0 | Some sd \<Rightarrow> sd_SampleCount sd) + 1
                    \<and> sd_Name sd' = name
                    \<and> manager m' sid = Some (sd_Embeddings sd')))
       \<and> (\<forall>sd. res = DeleteSpeaker env m fs sid \<and> db_Speakers (database m) sid = Some sd \<longrightarrow>
             r = (if \<not> env_marshal_ok env then Some (ErrSaveDatabase ErrMarshal)
                  else if env_write env = WriteOk then None
                  else Some (ErrSaveDatabase ErrWriteFile))
             \<and> db_Speakers (database m') sid = None \<and> manager m' sid = None)"
proof -
  have ab: "(r = None \<longrightarrow> env_marshal_ok env \<and> env_write env = WriteOk
            \<and> fs' = fs(dbPath m \<mapsto> Doc (database m')) \<and> persisted m' fs'
            \<and> (index_agrees m \<longrightarrow> index_agrees m'))
       \<and> (\<forall>e. r = Some (ErrSaveDatabase e) \<longrightarrow>
             (e = ErrMarshal \<and> \<not> env_marshal_ok env \<and> fs' = fs
              \<or> e = ErrWriteFile \<and> env_marshal_ok env \<and> env_write env \<noteq> WriteOk
                  \<and> (fs' = fs \<or> fs' = fs(dbPath m \<mapsto> Garbage)))
             \<and> db_Speakers (database m') sid \<noteq> db_Speakers (database m) sid)"
    using assms(1)
  proof
    assume "res = RegisterSpeaker env m fs sid name audio sr"
    with assms(2) have "RegisterSpeaker env m fs sid name audio sr = (r, m', fs')" by simp
    then show ?thesis by (rule RegisterSpeaker_persist)
  next
    assume "res = DeleteSpeaker env m fs sid"
    with assms(2) have "DeleteSpeaker env m fs sid = (r, m', fs')" by simp
    then show ?thesis by (rule DeleteSpeaker_persist)
  qed
  have c: "r = (if \<not> env_marshal_ok env then Some (ErrSaveDatabase ErrMarshal)
                  else if env_write env = WriteOk then None
                  else Some (ErrSaveDatabase ErrWriteFile))
             \<and> (\<exists>sd'. db_Speakers (database m') sid = Some sd'
                    \<and> sd_Embeddings sd'
                        = (case db_Speakers (database m) sid of
                             None \<Rightarrow> [] | Some sd \<Rightarrow> sd_Embeddings sd) @ [e]
                    \<and> sd_SampleCount sd'
                        = (case db_Speakers (database m) sid of
                             None \<Rightarrow> 0 | Some sd \<Rightarrow> sd_SampleCount sd) + 1
                    \<and> sd_Name sd' = name
                    \<and> manager m' sid = Some (sd_Embeddings sd'))"
    if "res = RegisterSpeaker env m fs sid name audio sr
          \<and> extractEmbedding m audio sr = Inr e \<and> env_RegisterV_ok env" for e
  proof -
    from that assms(2) have "RegisterSpeaker env m fs sid name audio sr = (r, m', fs')"
      and "extractEmbedding m audio sr = Inr e" and "env_RegisterV_ok env" by simp_all
    then show ?thesis by (rule RegisterSpeaker_forward)
  qed
  have d: "r = (if \<not> env_marshal_ok env then Some (ErrSaveDatabase ErrMarshal)
                  else if env_write env = WriteOk then None
                  else Some (ErrSaveDatabase ErrWriteFile))
             \<and> db_Speakers (database m') sid = None \<and> manager m' sid = None"
    if "res = DeleteSpeaker env m fs sid \<and> db_Speakers (database m) sid = Some sd" for sd
  proof -
    from that assms(2) have "DeleteSpeaker env m fs sid = (r, m', fs')"
      and "db_Speakers (database m) sid = Some sd" by simp_all
    then show ?thesis by (rule DeleteSpeaker_forward)
  qed
  from ab c d show ?thesis by blast
qed

theorem mutating_ops_write_in_place_witness:
  "RegisterSpeaker env_ok m0 fs0 ''u1'' ''Alice'' [1, 0, 5] 16000
     = (None, m_alice, fs0(''data/speaker.json'' \<mapsto> Doc (database m_alice)))
   \<and> extractEmbedding m0 [1, 0, 5] 16000 = Inr [1, 0] \<and> env_RegisterV_ok env_ok
   \<and> persisted m_alice (fs0(''data/speaker.json'' \<mapsto> Doc (database m_alice)))
   \<and> index_agrees m0 \<and> index_agrees m_alice
   \<and> (\<exists>sd'. db_Speakers (database m_alice) ''u1'' = Some sd' \<and> sd_Embeddings sd' = [[1, 0]]
          \<and> sd_SampleCount sd' = 1 \<and> manager m_alice ''u1'' = Some (sd_Embeddings sd'))
   \<and> RegisterSpeaker env_marshal_failed m0 fs0 ''u1'' ''Alice'' [1, 0, 5] 16000
     = (Some (ErrSaveDatabase ErrMarshal), m_alice, fs0)
   \<and> \<not> env_marshal_ok env_marshal_failed
   \<and> db_Speakers (database m_alice) ''u1'' \<noteq> db_Speakers (database m0) ''u1''
   \<and> db_Speakers (database m_alice) ''u1'' = Some sd_alice
   \<and> fst (DeleteSpeaker env_open_failed m_alice fs0 ''u1'') = Some (ErrSaveDatabase ErrWriteFile)
   \<and> env_write env_open_failed \<noteq> WriteOk
   \<and> db_Speakers (database (fst (snd (DeleteSpeaker env_open_failed m_alice fs0 ''u1''))))
        ''u1'' = None"
proof -
  have b: "index_agrees m0"
    by (simp add: index_agrees_def m0_def db0_def)
  have pth: "dbPath m0 = ''data/speaker.json''"
    by (simp add: m0_def)
  have v: "env_RegisterV_ok env_ok" by (simp add: env_ok_def)
  have m0e: "db_Speakers (database m0) ''u1'' = None" by (simp add: m0_def db0_def)
  have al: "db_Speakers (database m_alice) ''u1'' = Some sd_alice" by (simp add: m_alice_def)
  note t1 = mutating_ops_write_in_place
    [OF disjI1 [OF refl] register_m0_ok]
  from t1 have p: "persisted m_alice (fs0(''data/speaker.json'' \<mapsto> Doc (database m_alice)))"
    by blast
  from t1 b have ia: "index_agrees m_alice" by blast
  from t1 extract_m0 v
  have "\<exists>sd'. db_Speakers (database m_alice) ''u1'' = Some sd'
              \<and> sd_Embeddings sd'
                  = (case db_Speakers (database m0) ''u1'' of
                       None \<Rightarrow> [] | Some sd \<Rightarrow> sd_Embeddings sd) @ [[1, 0]]
              \<and> sd_SampleCount sd'
                  = (case db_Speakers (database m0) ''u1'' of
                       None \<Rightarrow> 0 | Some sd \<Rightarrow> sd_SampleCount sd) + 1
              \<and> sd_Name sd' = ''Alice''
              \<and> manager m_alice ''u1'' = Some (sd_Embeddings sd')"
    by blast
  then have rec: "\<exists>sd'. db_Speakers (database m_alice) ''u1'' = Some sd'
          \<and> sd_Embeddings sd' = [[1, 0]]
          \<and> sd_SampleCount sd' = 1 \<and> manager m_alice ''u1'' = Some (sd_Embeddings sd')"
    by (auto simp: m0e)
  note t2 = mutating_ops_write_in_place
    [OF disjI1 [OF refl] register_m0_marshal_failed]
  have nm: "\<not> env_marshal_ok env_marshal_failed" by (simp add: env_marshal_failed_def)
  from t2 have ch: "db_Speakers (database m_alice) ''u1'' \<noteq> db_Speakers (database m0) ''u1''"
    by blast
  note t3 = mutating_ops_write_in_place
    [where name = "''Alice''" and audio = "[]" and sr = 0,
     OF disjI2 [OF refl] delete_alice_open_failed]
  have w: "env_write env_open_failed \<noteq> WriteOk" by (simp add: env_open_failed_def)
  from t3 al
  have del: "db_Speakers (database (m_alice\<lparr>manager := (manager m_alice)(''u1'' := None),
          database := (database m_alice)
            \<lparr>db_Speakers := (db_Speakers (database m_alice))(''u1'' := None),
             db_UpdatedAt := 7\<rparr>\<rparr>)) ''u1'' = None"
    by blast
  have del': "db_Speakers (database (fst (snd (DeleteSpeaker env_open_failed m_alice fs0 ''u1''))))
        ''u1'' = None"
    unfolding delete_alice_open_failed using del by simp
  have f: "fst (DeleteSpeaker env_open_failed m_alice fs0 ''u1'') = Some (ErrSaveDatabase ErrWriteFile)"
    by (simp add: delete_alice_open_failed)
  from register_m0_ok extract_m0 v p b ia rec register_m0_marshal_failed nm ch al f w del'
  show ?thesis by blast
qed



text \<open>
  Claim C4. When the embedding is extracted and the index reports no match (it returns the
  empty name), or when the database is empty whatever the index answers,
  \<open>IdentifySpeaker\<close> returns no error but the result with \<open>identified\<close> false, empty
  speaker id and name, and confidence 0.
\<close>

theorem IdentifySpeaker_no_match:
  assumes "extractEmbedding m audio sr = Inr e"
      and "manager_Search m (manager m) e (threshold m) = []
           \<or> db_Speakers (database m) = Map.empty"
  shows "IdentifySpeaker m audio sr = Inr (not_identified m)"
  using assms
  by (auto simp: IdentifySpeaker_def not_identified_def Let_def split: option.splits)

theorem IdentifySpeaker_no_match_witness:
  "extractEmbedding m0 [1, 0, 5] 16000 = Inr [1, 0]
   \<and> db_Speakers (database m0) = Map.empty
   \<and> manager_Search m0 (manager m0) [1, 0] (threshold m0) = ''ghost''
   \<and> IdentifySpeaker m0 [1, 0, 5] 16000 = Inr (not_identified m0)
   \<and> ir_Identified (not_identified m0) = False \<and> ir_SpeakerID (not_identified m0) = []
   \<and> ir_SpeakerName (not_identified m0) = [] \<and> ir_Confidence (not_identified m0) = 0"
proof -
  have a: "db_Speakers (database m0) = Map.empty"
    by (simp add: m0_def db0_def)
  have "IdentifySpeaker m0 [1, 0, 5] 16000 = Inr (not_identified m0)"
    using IdentifySpeaker_no_match [OF extract_m0] a by simp
  with a extract_m0 show ?thesis
    by (simp add: not_identified_def m0_def)
qed

text \<open>
  Claim C5. For every query vector and every record, the record's score is the maximum of 0
  and the cosine similarities of the query with the record's stored vectors, where the
  cosine similarity computed by the code is the dot product over the product of the norms and
  is 0 when the lengths differ or one of the vectors has zero norm. The score is never
  negative, and an empty list of vectors scores 0.
\<close>

theorem calculateSimilarity_max_cosine:
  "calculateSimilarity q es = Max (insert 0 (cosine_spec q ` set es))
   \<and> cosineSimilarity q e = cosine_spec q e
   \<and> (length q \<noteq> length e \<or> norm2 q = 0 \<or> norm2 e = 0 \<longrightarrow> cosineSimilarity q e = 0)
   \<and> 0 \<le> calculateSimilarity q es
   \<and> calculateSimilarity q [] = 0"
proof -
  have cs: "cosineSimilarity q = cosine_spec q"
    by (rule ext) (rule cosineSimilarity_spec)
  have a: "calculateSimilarity q es = Max (insert 0 (cosine_spec q ` set es))"
    by (cases es) (simp_all add: calculateSimilarity_def sim_loop_Max cs del: sim_loop.simps)
  have b: "length q \<noteq> length e \<or> norm2 q = 0 \<or> norm2 e = 0 \<longrightarrow> cosineSimilarity q e = 0"
    by (simp add: cosineSimilarity_spec cosine_spec_def)
  have c: "0 \<le> calculateSimilarity q es"
    by (simp add: calculateSimilarity_def sim_loop_ge)
  have d: "calculateSimilarity q [] = 0"
    by (simp add: calculateSimilarity_def)
  from a b c d show ?thesis by (simp add: cosineSimilarity_spec)
qed

theorem calculateSimilarity_max_cosine_witness:
  "length [1, 0 :: real] \<noteq> length [1 :: real]
   \<and> cosineSimilarity [1, 0] [1] = 0
   \<and> calculateSimilarity [1, 0] [[0, 1], [-1, 0], [1, 0]] = 1
   \<and> cosineSimilarity [1, 0] [-1, 0] = -1
   \<and> calculateSimilarity [1, 0] [[-1, 0]] = 0"
proof -
  note t = calculateSimilarity_max_cosine [of "[1, 0]" "[[0, 1], [-1, 0], [1, 0]]" "[1]"]
  have h: "length [1, 0 :: real] \<noteq> length [1 :: real]" by simp
  from t h have "cosineSimilarity [1, 0] [1] = 0" by blast
  moreover have "calculateSimilarity [1, 0] [[0, 1], [-1, 0], [1, 0]] = 1"
    by (simp add: calculateSimilarity_def cosineSimilarity_def cos_loop.simps)
  moreover have "cosineSimilarity [1, 0] [-1, 0] = -1"
    by (simp add: cosineSimilarity_def cos_loop.simps)
  moreover have "calculateSimilarity [1, 0] [[-1, 0]] = 0"
    by (simp add: calculateSimilarity_def cosineSimilarity_def cos_loop.simps)
  ultimately show ?thesis using h by blast
qed

text \<open>
  Claim C8. On a database without a record under \<open>sid\<close>, registering \<open>sid\<close> with name
  \<open>name\<close> and clip \<open>a\<close> and then with name \<open>name'\<close> and clip \<open>b\<close>, both clips
  yielding an embedding, leaves a record with sample count 2, the two embeddings in
  registration order, and the name \<open>name'\<close>.
\<close>

theorem RegisterSpeaker_twice:
  assumes "db_Speakers (database m) sid = None"
      and "extractEmbedding m a sr = Inr ea"
      and "extractEmbedding m b sr' = Inr eb"
      and "RegisterSpeaker env1 m fs sid name a sr = (r1, m1, fs1)"
      and "RegisterSpeaker env2 m1 fs1 sid name' b sr' = (r2, m2, fs2)"
  shows "\<exists>sd. db_Speakers (database m2) sid = Some sd
            \<and> sd_SampleCount sd = 2
            \<and> sd_Embeddings sd = [ea, eb]
            \<and> length (sd_Embeddings sd) = 2
            \<and> sd_Name sd = name'"
proof -
  have ex: "extractor m1 = extractor m"
    using assms(4) by (rule RegisterSpeaker_extractor)
  have e2: "extractEmbedding m1 b sr' = Inr eb"
    using assms(3) extractEmbedding_cong [OF ex] by simp
  note s1 = RegisterSpeaker_record [OF assms(2) assms(4)]
  note s2 = RegisterSpeaker_record [OF e2 assms(5)]
  show ?thesis
    using s2 by (simp add: registered_record_def s1 assms(1))
qed

theorem RegisterSpeaker_twice_witness:
  "db_Speakers (database m0) ''u1'' = None
   \<and> extractEmbedding m0 [1, 0, 5] 16000 = Inr [1, 0]
   \<and> extractEmbedding m0 [0, 1] 16000 = Inr [0, 1]
   \<and> (\<exists>sd. db_Speakers (database (fst (snd
          (RegisterSpeaker env_open_failed m_alice
            (fs0(''data/speaker.json'' \<mapsto> Doc (database m_alice))) ''u1'' ''Bob'' [0, 1] 16000)))) ''u1'' = Some sd
        \<and> sd_SampleCount sd = 2 \<and> sd_Embeddings sd = [[1, 0], [0, 1]] \<and> sd_Name sd = ''Bob'')"
proof -
  have a: "db_Speakers (database m0) ''u1'' = None"
    by (simp add: m0_def db0_def)
  have b: "extractEmbedding m0 [0, 1] 16000 = Inr [0, 1]"
    by (simp add: extractEmbedding_def m0_def ex0_def)
  obtain r m' fs' where d:
    "RegisterSpeaker env_open_failed m_alice
            (fs0(''data/speaker.json'' \<mapsto> Doc (database m_alice))) ''u1'' ''Bob'' [0, 1] 16000 = (r, m', fs')"
    by (cases "RegisterSpeaker env_open_failed m_alice
            (fs0(''data/speaker.json'' \<mapsto> Doc (database m_alice))) ''u1'' ''Bob'' [0, 1] 16000")
  have "\<exists>sd. db_Speakers (database m') ''u1'' = Some sd
        \<and> sd_SampleCount sd = 2 \<and> sd_Embeddings sd = [[1, 0], [0, 1]]
        \<and> length (sd_Embeddings sd) = 2 \<and> sd_Name sd = ''Bob''"
    using RegisterSpeaker_twice [OF a extract_m0 b register_m0_ok d] .
  with a b d extract_m0 show ?thesis by auto
qed

section \<open>Verification of the VAD pool\<close>

subsection \<open>Lemmas\<close>

lemma filter_update_count:
  "a < length xs \<Longrightarrow>
     length (filter P (xs[a := v])) + (if P (xs ! a) then 1 else 0)
       = length (filter P xs) + (if P v then 1 else 0)"
proof (induction xs arbitrary: a)
  case Nil
  then show ?case by simp
next
  case (Cons x xs)
  show ?case
  proof (cases a)
    case 0
    then show ?thesis by simp
  next
    case (Suc b)
    with Cons.prems have "b < length xs" by simp
    from Cons.IH [OF this] Suc show ?thesis by simp
  qed
qed

lemma filter_split_count:
  "length (filter P xs)
     \<le> length (filter (\<lambda>x. Q x \<and> P x) xs) + length (filter (\<lambda>x. \<not> Q x) xs)"
  by (induction xs) auto

lemma Reset_fields [simp]:
  "inst_InUse (Reset i) = inst_InUse i" "inst_ID (Reset i) = inst_ID i"
  by (simp_all add: Reset_def split: option.splits)

lemma Destroy_fields [simp]:
  "inst_InUse (Destroy i) = inst_InUse i" "inst_ID (Destroy i) = inst_ID i"
  "inst_VAD (Destroy i) = None"
  by (simp_all add: Destroy_def split: option.splits)

lemma Get_empty:
  "available p = [] \<Longrightarrow> Get env p = Some (createNewInstance env p)"
  by (subst Get.simps) simp

lemma Get_hit:
  "available p = a # rest \<Longrightarrow> inst_InUse (store p ! a) = 0 \<Longrightarrow>
   Get env p = Some (Inr a,
                 p\<lparr>available := rest,
                   store := (store p)[a := (store p ! a)\<lparr>inst_InUse := 1,
                                                       inst_LastUsed := ge_now env\<rparr>],
                   totalReused := totalReused p + 1,
                   totalActive := totalActive p + 1\<rparr>)"
  by (subst Get.simps) simp

lemma pool_inv_createNewInstance:
  assumes "pool_inv p"
  shows "pool_inv (snd (createNewInstance env p))"
proof (cases "ge_vad_ok env")
  case False
  with assms show ?thesis by (simp add: createNewInstance_def)
next
  case True
  have "\<forall>a \<in> set (available p). a < length (store p)"
    using assms by (simp add: pool_inv_def)
  then have "\<forall>a \<in> set (available p). (store p @ [x]) ! a = store p ! a" for x
    by (simp add: nth_append)
  with assms True show ?thesis
    by (auto simp: createNewInstance_def pool_inv_def in_use_count_def)
qed

lemma pool_inv_Get_hit:
  assumes "pool_inv p" and "available p = a # rest"
  shows "inst_InUse (store p ! a) = 0
     \<and> pool_inv (p\<lparr>available := rest,
                   store := (store p)[a := (store p ! a)\<lparr>inst_InUse := 1,
                                                       inst_LastUsed := t\<rparr>],
                   totalReused := totalReused p + 1,
                   totalActive := totalActive p + 1\<rparr>)"
proof -
  from assms have a: "a < length (store p)" "inst_InUse (store p ! a) = 0"
    and d: "a \<notin> set rest" "distinct rest"
    and r: "\<forall>b \<in> set rest. b < length (store p) \<and> inst_InUse (store p ! b) = 0"
    by (simp_all add: pool_inv_def)
  let ?v = "(store p ! a)\<lparr>inst_InUse := 1, inst_LastUsed := t\<rparr>"
  have c1: "length (filter (\<lambda>i. inst_InUse i = 1) ((store p)[a := ?v]))
      = length (filter (\<lambda>i. inst_InUse i = 1) (store p)) + 1"
    using filter_update_count [OF a(1), of "\<lambda>i. inst_InUse i = 1" ?v] a(2) by simp
  have c2: "length (filter (\<lambda>i. inst_ID i \<noteq> - 1) ((store p)[a := ?v]))
      = length (filter (\<lambda>i. inst_ID i \<noteq> - 1) (store p))"
    using filter_update_count [OF a(1), of "\<lambda>i. inst_ID i \<noteq> - 1" ?v] by simp
  have r': "\<forall>b \<in> set rest. b < length (store p) \<and> inst_InUse ((store p)[a := ?v] ! b) = 0"
  proof
    fix b assume b: "b \<in> set rest"
    with d(1) have "a \<noteq> b" by auto
    then have "(store p)[a := ?v] ! b = store p ! b" by simp
    with r b show "b < length (store p) \<and> inst_InUse ((store p)[a := ?v] ! b) = 0" by simp
  qed
  from assms have rest: "totalActive p = int (in_use_count p)" "length (available p) \<le> PoolSize p"
    "length (filter (\<lambda>i. inst_ID i \<noteq> - 1) (store p)) \<le> PoolSize p"
    "length (instances p) \<le> PoolSize p"
    "length (instances p) \<le> length (available p) + in_use_count p"
    by (simp_all add: pool_inv_def)
  show ?thesis
    using a(2) d(2) r' rest assms(2)
    by (simp add: pool_inv_def in_use_count_def c1 c2)
qed

lemma Get_total:
  assumes "pool_inv p"
  shows "\<exists>r p'. Get env p = Some (r, p') \<and> pool_inv p'"
proof (cases "available p")
  case Nil
  then have "Get env p = Some (createNewInstance env p)" by (rule Get_empty)
  with pool_inv_createNewInstance [OF assms, of env] show ?thesis
    by (cases "createNewInstance env p") auto
next
  case (Cons a rest)
  from pool_inv_Get_hit [OF assms Cons] Get_hit [OF Cons] show ?thesis by blast
qed

lemma pool_inv_Put:
  assumes "pool_inv p"
  shows "pool_inv (Put now p inst)"
proof (cases inst)
  case None
  with assms show ?thesis by (simp add: Put_def)
next
  case (Some a)
  show ?thesis
  proof (cases "a < length (store p) \<and> inst_InUse (store p ! a) = 1")
    case False
    then have "Put now p inst = p"
      using Some by (auto simp: Put_def)
    with assms show ?thesis by simp
  next
    case True
    then have a: "a < length (store p)" and u: "inst_InUse (store p ! a) = 1" by simp_all
    from assms u have na: "a \<notin> set (available p)"
      by (auto simp: pool_inv_def)
    from assms have inv: "distinct (available p)"
      "\<forall>b \<in> set (available p). b < length (store p) \<and> inst_InUse (store p ! b) = 0"
      "totalActive p = int (in_use_count p)" "length (available p) \<le> PoolSize p"
      "length (filter (\<lambda>i. inst_ID i \<noteq> - 1) (store p)) \<le> PoolSize p"
      "length (instances p) \<le> PoolSize p"
      "length (instances p) \<le> length (available p) + in_use_count p"
      by (simp_all add: pool_inv_def)
    let ?i1 = "Reset ((store p ! a)\<lparr>inst_InUse := 0, inst_LastUsed := now\<rparr>)"
    have c1: "length (filter (\<lambda>i. inst_InUse i = 1) ((store p)[a := v])) + 1
        = length (filter (\<lambda>i. inst_InUse i = 1) (store p))" if "inst_InUse v = 0" for v
      using filter_update_count [OF a, of "\<lambda>i. inst_InUse i = 1" v] u that by simp
    have c2: "length (filter (\<lambda>i. inst_ID i \<noteq> - 1) ((store p)[a := v]))
        = length (filter (\<lambda>i. inst_ID i \<noteq> - 1) (store p))"
      if "inst_ID v = inst_ID (store p ! a)" for v
      using filter_update_count [OF a, of "\<lambda>i. inst_ID i \<noteq> - 1" v] that by simp
    have r': "\<forall>b \<in> set (available p). b < length (store p) \<and> inst_InUse ((store p)[a := v] ! b) = 0"
      for v
    proof
      fix b assume b: "b \<in> set (available p)"
      with na have "a \<noteq> b" by auto
      then have "(store p)[a := v] ! b = store p ! b" by simp
      with inv(2) b show "b < length (store p) \<and> inst_InUse ((store p)[a := v] ! b) = 0"
        by simp
    qed
    show ?thesis
    proof (cases "length (available p) < PoolSize p")
      case room: True
      have eq: "Put now p inst
          = p\<lparr>store := (store p)[a := ?i1], totalActive := totalActive p - 1,
               available := available p @ [a]\<rparr>"
        using Some True room by (simp add: Put_def Let_def)
      show ?thesis
        unfolding eq using inv na a r' [of ?i1] c1 [of ?i1] c2 [of ?i1] room
        by (simp add: pool_inv_def in_use_count_def)
    next
      case full: False
      have eq: "Put now p inst
          = p\<lparr>store := (store p)[a := Destroy ?i1], totalActive := totalActive p - 1\<rparr>"
        using Some True full by (simp add: Put_def Let_def)
      show ?thesis
        unfolding eq using inv na a r' [of "Destroy ?i1"] c1 [of "Destroy ?i1"]
          c2 [of "Destroy ?i1"] full
        by (simp add: pool_inv_def in_use_count_def)
    qed
  qed
qed

lemma PoolSize_createNewInstance [simp]:
  "PoolSize (snd (createNewInstance env p)) = PoolSize p"
  "instances (snd (createNewInstance env p)) = instances p"
  by (simp_all add: createNewInstance_def)

lemma Get_frame:
  assumes "pool_inv p" and "Get env p = Some (r, p')"
  shows "PoolSize p' = PoolSize p \<and> instances p' = instances p"
proof (cases "available p")
  case Nil
  with assms(2) Get_empty [OF Nil, of env] show ?thesis
    by (cases "createNewInstance env p") (auto simp: createNewInstance_def split: if_splits)
next
  case (Cons a rest)
  from pool_inv_Get_hit [OF assms(1) Cons] Get_hit [OF Cons, of env] assms(2)
  show ?thesis by auto
qed

lemma Put_frame:
  "PoolSize (Put now p inst) = PoolSize p \<and> instances (Put now p inst) = instances p"
  by (simp add: Put_def Let_def split: option.splits)

lemma run_ops_inv:
  assumes "pool_inv p"
  shows "\<exists>p'. run_ops ops p = Some p' \<and> pool_inv p' \<and> PoolSize p' = PoolSize p
            \<and> instances p' = instances p"
  using assms
proof (induction ops arbitrary: p)
  case Nil
  then show ?case by simp
next
  case (Cons op ops)
  show ?case
  proof (cases op)
    case (OpGet env)
    from Get_total [OF Cons.prems, of env] obtain r p1
      where g: "Get env p = Some (r, p1)" and i: "pool_inv p1" by blast
    from Get_frame [OF Cons.prems g] Cons.IH [OF i] g OpGet show ?thesis by auto
  next
    case (OpPut now inst)
    from Cons.IH [OF pool_inv_Put [OF Cons.prems, of now inst]]
      Put_frame [of now p inst] OpPut
    show ?thesis by auto
  qed
qed

lemma init_instance_inv:
  assumes "init_inv n k st" and "k < n"
  shows "init_inv n (Suc k) (init_instance vad_ok now k st)"
proof (cases st)
  case (Pair p errs)
  with assms(1) have i: "PoolSize p = n" "length (store p) \<le> k"
    "available p = [0..<length (store p)]" "instances p = [0..<length (store p)]"
    "\<forall>i \<in> set (store p). inst_InUse i = 0 \<and> inst_ID i \<noteq> - 1" "totalActive p = 0"
    by (simp_all add: init_inv_def)
  show ?thesis
  proof (cases "vad_ok k")
    case False
    with Pair i show ?thesis by (simp add: init_instance_def init_inv_def)
  next
    case True
    from i(2) assms(2) i(1) have room: "length (store p) < PoolSize p" by simp
    with Pair True i show ?thesis
      by (simp add: init_instance_def init_inv_def Let_def)
  qed
qed

lemma init_fold_inv:
  "k \<le> n \<Longrightarrow> init_inv n k (fold (init_instance vad_ok now) [0..<k] (NewSileroVADPool n, []))"
proof (induction k)
  case 0
  show ?case by (simp add: init_inv_def NewSileroVADPool_def)
next
  case (Suc k)
  then have "init_inv n k (fold (init_instance vad_ok now) [0..<k] (NewSileroVADPool n, []))"
    and "k < n" by simp_all
  from init_instance_inv [OF this] show ?case by simp
qed

lemma filter_none: "\<forall>x \<in> set xs. \<not> P x \<Longrightarrow> filter P xs = []"
  by (induction xs) auto

lemma init_inv_pool_inv:
  assumes "init_inv n k (p, errs)" and "k \<le> n"
  shows "pool_inv p \<and> PoolSize p = n"
proof -
  from assms(1) have i: "PoolSize p = n" "length (store p) \<le> k"
    "available p = [0..<length (store p)]" "instances p = [0..<length (store p)]"
    "\<forall>i \<in> set (store p). inst_InUse i = 0 \<and> inst_ID i \<noteq> - 1" "totalActive p = 0"
    by (simp_all add: init_inv_def)
  from i(5) have f: "filter (\<lambda>i. inst_InUse i = 1) (store p) = []"
    by (intro filter_none) auto
  have "length (filter (\<lambda>i. inst_ID i \<noteq> - 1) (store p)) \<le> length (store p)"
    by simp
  with i(2) assms(2) have l: "length (filter (\<lambda>i. inst_ID i \<noteq> - 1) (store p)) \<le> n"
    by linarith
  from i(5) have z: "\<forall>a \<in> set [0..<length (store p)]. inst_InUse (store p ! a) = 0"
    by simp
  show ?thesis
    using i(1,2,3,4,6) f l z assms(2) by (simp add: pool_inv_def in_use_count_def)
qed

lemma Initialize_inv:
  assumes "Initialize vad_ok now (NewSileroVADPool n) = (r, p0)"
  shows "pool_inv p0 \<and> PoolSize p0 = n"
proof -
  obtain p errs where f:
    "fold (init_instance vad_ok now) [0..<n] (NewSileroVADPool n, []) = (p, errs)"
    by (cases "fold (init_instance vad_ok now) [0..<n] (NewSileroVADPool n, [])")
  with assms have "p0 = p"
    by (auto simp: Initialize_def NewSileroVADPool_def split: if_splits)
  moreover from init_fold_inv [of n n vad_ok now] f have "init_inv n n (p, errs)" by simp
  ultimately show ?thesis using init_inv_pool_inv by blast
qed

lemma pool_one_init:
  "Initialize (\<lambda>i. True) 0 (NewSileroVADPool (Suc 0)) = (None, pool_one)"
  by (simp add: Initialize_def NewSileroVADPool_def init_instance_def idle_instance_def
        pool_one_def)

lemma pool_partial_init:
  "Initialize (\<lambda>i. i = 0) 0 (NewSileroVADPool 2) = (None, pool_partial)"
proof -
  have u: "[0..<2] = [0, Suc 0]"
    by (simp add: numeral_2_eq_2)
  show ?thesis
    by (simp add: Initialize_def NewSileroVADPool_def init_instance_def idle_instance_def
          pool_partial_def u)
qed

lemma Put_in_use:
  assumes "a < length (store p)" and "inst_InUse (store p ! a) = 1"
  shows "Put now p (Some a) =
     (if length (available p) < PoolSize p
      then p\<lparr>store := (store p)[a := Reset ((store p ! a)\<lparr>inst_InUse := 0, inst_LastUsed := now\<rparr>)],
             totalActive := totalActive p - 1,
             available := available p @ [a]\<rparr>
      else p\<lparr>store := (store p)[a := Destroy (Reset ((store p ! a)\<lparr>inst_InUse := 0, inst_LastUsed := now\<rparr>))],
             totalActive := totalActive p - 1\<rparr>)"
  using assms by (simp add: Put_def Let_def)

lemma drain_empty: "drain queue = []"
  by (induction queue) simp_all

lemma Reset_VAD:
  "inst_VAD (Reset i) = map_option (\<lambda>vad. vad\<lparr>vad_queue := []\<rparr>) (inst_VAD i)"
  by (simp add: Reset_def drain_empty split: option.splits)

lemma Reset_LastUsed: "inst_LastUsed (Reset i) = inst_LastUsed i"
  by (simp add: Reset_def split: option.splits)

lemma Destroy_LastUsed: "inst_LastUsed (Destroy i) = inst_LastUsed i"
  by (simp add: Destroy_def split: option.splits)

lemma Reset_VAD_None: "(inst_VAD (Reset i) = None) = (inst_VAD i = None)"
  by (simp add: Reset_def split: option.splits)

lemma Get_pool_one: "Get get_ok pool_one = Some (Inr 0, pool_one_a)"
  by (subst Get.simps) (simp add: pool_one_def pool_one_a_def get_ok_def idle_instance_def)

lemma Get_pool_one_a: "Get get_ok pool_one_a = Some (Inr 1, pool_one_b)"
  by (subst Get.simps)
     (simp add: pool_one_a_def pool_one_b_def get_ok_def idle_instance_def createNewInstance_def)

lemma Put_pool_one_b: "Put 3 pool_one_b (Some 1) = pool_one_c"
  by (simp add: Put_def pool_one_b_def pool_one_c_def idle_instance_def Reset_def Let_def
        NewVoiceActivityDetector_def)

lemma Put_pool_one_b_0: "Put 3 pool_one_b (Some 0) = pool_one_e"
  by (simp add: Put_def pool_one_b_def pool_one_e_def idle_instance_def Reset_def Let_def
        NewVoiceActivityDetector_def)

lemma Put_pool_one_c: "Put 4 pool_one_c (Some 0) = pool_one_d"
  by (simp add: Put_def pool_one_c_def pool_one_d_def idle_instance_def Reset_def Destroy_def
        Let_def NewVoiceActivityDetector_def)

lemma run_quiet_one: "run_ops quiet_ops pool_one = Some pool_one_d"
  by (simp add: quiet_ops_def Get_pool_one Get_pool_one_a Put_pool_one_b [simplified]
        Put_pool_one_c)

lemma run_quiet_partial: "run_ops quiet_ops pool_partial = Some pool_partial_d"
proof -
  have g1: "Get get_ok pool_partial = Some (Inr 0, pool_partial\<lparr>available := [],
      store := [(idle_instance 0 1)\<lparr>inst_InUse := 1\<rparr>], totalReused := 1, totalActive := 1\<rparr>)"
    by (subst Get.simps) (simp add: pool_partial_def get_ok_def idle_instance_def)
  have g2: "Get get_ok (pool_partial\<lparr>available := [],
      store := [(idle_instance 0 1)\<lparr>inst_InUse := 1\<rparr>], totalReused := 1, totalActive := 1\<rparr>)
     = Some (Inr 1, pool_partial\<lparr>available := [],
      store := [(idle_instance 0 1)\<lparr>inst_InUse := 1\<rparr>, (idle_instance (- 1) 1)\<lparr>inst_InUse := 1\<rparr>],
      totalCreated := 2, totalReused := 1, totalActive := 2\<rparr>)"
    by (subst Get.simps)
       (simp add: pool_partial_def get_ok_def idle_instance_def createNewInstance_def)
  have p: "Put 4 (Put 3 (pool_partial\<lparr>available := [],
      store := [(idle_instance 0 1)\<lparr>inst_InUse := 1\<rparr>, (idle_instance (- 1) 1)\<lparr>inst_InUse := 1\<rparr>],
      totalCreated := 2, totalReused := 1, totalActive := 2\<rparr>) (Some (Suc 0))) (Some 0) = pool_partial_d"
    by (simp add: Put_def pool_partial_def pool_partial_d_def idle_instance_def Reset_def
        Let_def NewVoiceActivityDetector_def)
  show ?thesis
    by (simp add: quiet_ops_def g1 g2 p)
qed

subsection \<open>The claims\<close>

text \<open>
  Claim C1, as stated, fails. In a pool of size 1 the first \<open>Get\<close> takes the pooled
  instance and the second one, finding the channel empty, creates a transient instance
  (ID -1, in use). Returning the transient instance while the pooled one is still out puts
  it into the available channel: it is re-queued, and its detector is not destroyed.
\<close>

theorem transient_requeued_counterexample:
  "Initialize (\<lambda>i. True) 0 (NewSileroVADPool (Suc 0)) = (None, pool_one)
   \<and> Get get_ok pool_one = Some (Inr 0, pool_one_a)
   \<and> Get get_ok pool_one_a = Some (Inr 1, pool_one_b)
   \<and> inst_ID (store pool_one_b ! 1) = - 1 \<and> inst_InUse (store pool_one_b ! 1) = 1
   \<and> available (Put 3 pool_one_b (Some 1)) = [1]
   \<and> inst_VAD (store (Put 3 pool_one_b (Some 1)) ! 1) \<noteq> None"
  by (simp add: pool_one_init Get_pool_one Get_pool_one_a Put_pool_one_b [simplified])
     (simp add: pool_one_b_def pool_one_c_def idle_instance_def)

text \<open>
  Claim C1, amended. For every transient instance (ID -1, in-use flag 1), \<open>Put\<close> clears the
  in-use flag, stamps the time of last use and decrements the active count, and leaves the
  other instances of the store as they are. When the available channel has room, the
  instance is reset, that is, the segment queue of its detector is emptied while the
  detector itself is kept, and it is re-queued at the end of the channel; only when the
  channel is full is the instance destroyed (its detector handle becomes nil) and not
  re-queued.
\<close>

theorem Put_transient:
  assumes "a < length (store p)"
      and "inst_ID (store p ! a) = - 1"
      and "inst_InUse (store p ! a) = 1"
  shows "inst_InUse (store (Put now p (Some a)) ! a) = 0
     \<and> inst_ID (store (Put now p (Some a)) ! a) = - 1
     \<and> inst_LastUsed (store (Put now p (Some a)) ! a) = now
     \<and> totalActive (Put now p (Some a)) = totalActive p - 1
     \<and> length (store (Put now p (Some a))) = length (store p)
     \<and> (\<forall>b. b \<noteq> a \<longrightarrow> store (Put now p (Some a)) ! b = store p ! b)
     \<and> (if length (available p) < PoolSize p
        then available (Put now p (Some a)) = available p @ [a]
             \<and> inst_VAD (store (Put now p (Some a)) ! a)
                 = map_option (\<lambda>vad. vad\<lparr>vad_queue := []\<rparr>) (inst_VAD (store p ! a))
             \<and> (inst_VAD (store (Put now p (Some a)) ! a) = None) = (inst_VAD (store p ! a) = None)
        else available (Put now p (Some a)) = available p
             \<and> inst_VAD (store (Put now p (Some a)) ! a) = None)"
  using assms(1,2)
  by (simp add: Put_in_use [OF assms(1,3)] Reset_VAD Reset_VAD_None Reset_LastUsed
        Destroy_LastUsed)

theorem Put_transient_witness:
  "(1::nat) < length (store pool_one_p)
   \<and> inst_ID (store pool_one_p ! 1) = - 1 \<and> inst_InUse (store pool_one_p ! 1) = 1
   \<and> length (available pool_one_p) < PoolSize pool_one_p
   \<and> available (Put 3 pool_one_p (Some 1)) = [1]
   \<and> inst_VAD (store (Put 3 pool_one_p (Some 1)) ! 1)
        = Some \<lparr>vad_accepted = [[0, 0]], vad_queue = []\<rparr>
   \<and> (0::nat) \<noteq> 1
   \<and> store (Put 3 pool_one_p (Some 1)) ! 0 = store pool_one_p ! 0
   \<and> Put 3 pool_one_b (Some 0) = pool_one_e
   \<and> (1::nat) < length (store pool_one_e)
   \<and> inst_ID (store pool_one_e ! 1) = - 1 \<and> inst_InUse (store pool_one_e ! 1) = 1
   \<and> \<not> length (available pool_one_e) < PoolSize pool_one_e
   \<and> available (Put 4 pool_one_e (Some 1)) = available pool_one_e
   \<and> inst_VAD (store (Put 4 pool_one_e (Some 1)) ! 1) = None"
proof -
  have a: "(1::nat) < length (store pool_one_p)" "inst_ID (store pool_one_p ! 1) = - 1"
    "inst_InUse (store pool_one_p ! 1) = 1"
    by (simp_all add: pool_one_p_def)
  have a': "length (available pool_one_p) < PoolSize pool_one_p" "available pool_one_p = []"
    "inst_VAD (store pool_one_p ! 1)
       = Some \<lparr>vad_accepted = [[0, 0]],
                vad_queue = [Some \<lparr>seg_Start = 0, seg_Samples = [1, 2]\<rparr>]\<rparr>"
    by (simp_all add: pool_one_p_def)
  have b: "(1::nat) < length (store pool_one_e)" "inst_ID (store pool_one_e ! 1) = - 1"
    "inst_InUse (store pool_one_e ! 1) = 1" "\<not> length (available pool_one_e) < PoolSize pool_one_e"
    by (simp_all add: pool_one_e_def idle_instance_def)
  note t = Put_transient [OF a, of 3]
  from t a'(1) have "available (Put 3 pool_one_p (Some 1)) = available pool_one_p @ [1]
      \<and> inst_VAD (store (Put 3 pool_one_p (Some 1)) ! 1)
          = map_option (\<lambda>vad. vad\<lparr>vad_queue := []\<rparr>) (inst_VAD (store pool_one_p ! 1))"
    by simp
  then have r1: "available (Put 3 pool_one_p (Some 1)) = [1]"
    "inst_VAD (store (Put 3 pool_one_p (Some 1)) ! 1)
        = Some \<lparr>vad_accepted = [[0, 0]], vad_queue = []\<rparr>"
    by (simp_all add: pool_one_p_def)
  have n: "(0::nat) \<noteq> 1" by simp
  with t have r0: "store (Put 3 pool_one_p (Some 1)) ! 0 = store pool_one_p ! 0"
    by blast
  from Put_transient [OF b(1,2,3), of 4] b(4)
  have r2: "available (Put 4 pool_one_e (Some 1)) = available pool_one_e
      \<and> inst_VAD (store (Put 4 pool_one_e (Some 1)) ! 1) = None"
    by simp
  from a a'(1) b r0 r1 r2 n Put_pool_one_b_0 show ?thesis by blast
qed

text \<open>
  Claim C9, as stated, fails in its last part. \<open>Initialize\<close> succeeds when only some of the
  detectors could be constructed; in a pool of size 2 with one instance, after a \<open>Get\<close> of
  the pooled instance, a \<open>Get\<close> that creates a transient one and the return of both, every
  \<open>Get\<close> is matched by a \<open>Put\<close> and the statistics read 2 available, 0 active and 1
  instance in total.
\<close>

theorem quiescent_sum_counterexample:
  "Initialize (\<lambda>i. i = 0) 0 (NewSileroVADPool 2) = (None, pool_partial)
   \<and> run_ops quiet_ops pool_partial = Some pool_partial_d
   \<and> quiescent pool_partial_d
   \<and> stat_available_count (GetStats pool_partial_d) = 2
   \<and> stat_active_count (GetStats pool_partial_d) = 0
   \<and> stat_total_instances (GetStats pool_partial_d) = 1"
  by (simp add: run_quiet_partial pool_partial_init quiescent_def in_use_count_def GetStats_def
        idle_instance_def pool_partial_d_def)

text \<open>
  Claim C9, amended. From an initialised pool, every sequence of \<open>Get\<close> and \<open>Put\<close>
  operations runs to its end (each \<open>Get\<close> returns), and in the state it reaches the active
  count equals the number of instances whose in-use flag is 1 and is at most the pool size
  plus the number of transient instances in use; the total of instances is at most the
  available count plus the active count, and the available count is at most the pool size. At
  a quiescent point (no instance in use) of a pool for which \<open>Initialize\<close> constructed all
  its detectors, the available count plus the active count equals the total of instances
  that \<open>GetStats\<close> reports.
\<close>

theorem pool_counts:
  assumes "Initialize vad_ok now (NewSileroVADPool n) = (r, p0)"
  shows "\<exists>p. run_ops ops p0 = Some p
            \<and> totalActive p = int (in_use_count p)
            \<and> totalActive p \<le> int (PoolSize p) + int (transient_outstanding p)
            \<and> stat_total_instances (GetStats p)
                 \<le> stat_available_count (GetStats p) + stat_active_count (GetStats p)
            \<and> stat_available_count (GetStats p) \<le> int (PoolSize p)
            \<and> (quiescent p \<and> length (instances p0) = n \<longrightarrow>
                 stat_available_count (GetStats p) + stat_active_count (GetStats p)
                   = stat_total_instances (GetStats p))"
proof -
  from Initialize_inv [OF assms] have i0: "pool_inv p0" and n: "PoolSize p0 = n" by simp_all
  from run_ops_inv [OF i0, of ops] obtain p where
    p: "run_ops ops p0 = Some p" "pool_inv p" "PoolSize p = PoolSize p0" "instances p = instances p0"
    by blast
  from p(2) have inv: "totalActive p = int (in_use_count p)" "length (available p) \<le> PoolSize p"
      "length (filter (\<lambda>i. inst_ID i \<noteq> - 1) (store p)) \<le> PoolSize p"
      "length (instances p) \<le> length (available p) + in_use_count p"
    by (simp_all add: pool_inv_def)
  have "in_use_count p \<le> transient_outstanding p
          + length (filter (\<lambda>i. \<not> inst_ID i = - 1) (store p))"
    unfolding in_use_count_def transient_outstanding_def by (rule filter_split_count)
  with inv(3) have b: "in_use_count p \<le> PoolSize p + transient_outstanding p" by simp
  have q: "length (available p) = length (instances p)"
    if "quiescent p" "length (instances p0) = n"
    using that inv(2,4) p(3,4) n by (simp add: quiescent_def)
  show ?thesis
    using p(1) inv(1,2,4) b q by (auto simp: GetStats_def quiescent_def)
qed

theorem pool_counts_witness:
  "Initialize (\<lambda>i. True) 0 (NewSileroVADPool (Suc 0)) = (None, pool_one)
   \<and> run_ops quiet_ops pool_one = Some pool_one_d
   \<and> quiescent pool_one_d \<and> length (instances pool_one) = 1
   \<and> totalActive pool_one_d = int (in_use_count pool_one_d)
   \<and> stat_available_count (GetStats pool_one_d) + stat_active_count (GetStats pool_one_d)
        = stat_total_instances (GetStats pool_one_d)"
proof -
  have q: "quiescent pool_one_d"
    by (simp add: quiescent_def in_use_count_def pool_one_d_def idle_instance_def)
  have l: "length (instances pool_one) = 1"
    by (simp add: pool_one_def)
  from pool_counts [OF pool_one_init, of quiet_ops] q l
  have "totalActive pool_one_d = int (in_use_count pool_one_d)
      \<and> stat_available_count (GetStats pool_one_d) + stat_active_count (GetStats pool_one_d)
           = stat_total_instances (GetStats pool_one_d)"
    by (simp add: run_quiet_one)
  with q l pool_one_init run_quiet_one show ?thesis by simp
qed

section \<open>Verification of the session manager and the read loop\<close>

subsection \<open>Lemmas\<close>

lemma duration_lt_iff:
  "0 < sr \<Longrightarrow> duration_lt n sr d = (real n < d * real_of_int sr)"
  by (simp add: duration_lt_def pos_divide_less_eq)

lemma duration_gt_iff:
  "0 < sr \<Longrightarrow> duration_gt n sr d = (real n > d * real_of_int sr)"
  by (simp add: duration_gt_def pos_less_divide_eq)

lemma go_int_bounds:
  assumes "0 \<le> x" and "x < real n"
  shows "0 \<le> go_int x \<and> go_int x \<le> int n \<and> go_int x = \<lfloor>x\<rfloor>"
proof -
  from assms(1) have g: "go_int x = \<lfloor>x\<rfloor>" by (simp add: go_int_def)
  from assms(1) have "0 \<le> \<lfloor>x\<rfloor>" by simp
  moreover from assms(2) have "\<lfloor>x\<rfloor> \<le> int n"
    by (simp add: floor_le_iff) 
  ultimately show ?thesis using g by simp
qed

lemma collect_step:
  assumes "0 < cfg_SampleRate cfg" and "0 \<le> cfg_MaxSpeechDuration cfg"
      and "sess_closed session \<noteq> 1"
  shows "collect cfg session (seg # queue) acc
           = collect cfg session queue (acc @ segment_tasks cfg seg)"
proof (cases seg)
  case None
  then show ?thesis by (simp add: segment_tasks_def)
next
  case (Some segment)
  let ?n = "length (seg_Samples segment)"
  let ?m = "cfg_MaxSpeechDuration cfg * real_of_int (cfg_SampleRate cfg)"
  have m0: "0 \<le> ?m" using assms(1,2) by simp
  show ?thesis
  proof (cases "real ?n > ?m")
    case True
    from go_int_bounds [OF m0 True]
    have g: "0 \<le> go_int ?m" "go_int ?m \<le> int ?n" "go_int ?m = \<lfloor>?m\<rfloor>"
      by blast+
    from g(1,2) have ng: "\<not> (go_int ?m < 0 \<or> int ?n < go_int ?m)" by simp
    show ?thesis
      using Some assms(3) True ng
      by (simp add: segment_tasks_def duration_lt_iff [OF assms(1)]
            duration_gt_iff [OF assms(1)] g(3) del: of_int_mult)
  next
    case False
    show ?thesis
      using Some assms(3) False
      by (simp add: segment_tasks_def duration_lt_iff [OF assms(1)]
            duration_gt_iff [OF assms(1)])
  qed
qed

lemma collect_segment_tasks:
  assumes "0 < cfg_SampleRate cfg" and "0 \<le> cfg_MaxSpeechDuration cfg"
      and "sess_closed session \<noteq> 1"
  shows "collect cfg session queue acc = (Inr (acc @ concat (map (segment_tasks cfg) queue)), [])"
proof (induction queue arbitrary: acc)
  case Nil
  show ?case by simp
next
  case (Cons seg queue)
  show ?case
    by (simp only: collect_step [OF assms] Cons.IH list.map concat.simps append_assoc)
qed

lemma task_samples_spawn: "map task_samples (spawn cfg sid xs) = xs"
proof -
  have "map task_samples (spawn cfg sid xs) = map snd (enumerate 0 xs)"
    by (simp add: spawn_def case_prod_unfold comp_def)
  then show ?thesis by (simp add: map_snd_enumerate)
qed

lemma processSileroVAD_open:
  assumes "0 < cfg_SampleRate cfg" and "0 \<le> cfg_MaxSpeechDuration cfg"
      and "sess_closed session \<noteq> 1"
      and "sess_VADInstance session = Some a" and "inst_VAD (store pool ! a) = Some vad"
      and "\<not> ae_vad_timeout env"
  shows "processSileroVAD cfg env pool session sid frame =
     (None,
      set_detector pool a (vad\<lparr>vad_accepted := vad_accepted vad @ [frame], vad_queue := []\<rparr>),
      spawn cfg sid (concat (map (segment_tasks cfg) (vad_queue vad @ ae_emitted env))))"
  using assms(4,5,6)
  by (simp add: processSileroVAD_def Let_def collect_segment_tasks [OF assms(1,2,3)])

lemma segment_tasks_short:
  assumes "0 < cfg_SampleRate cfg"
      and "real (length (seg_Samples segment)) / real_of_int (cfg_SampleRate cfg)
             < cfg_MinSpeechDuration cfg"
  shows "segment_tasks cfg (Some segment) = []"
  using assms by (simp add: segment_tasks_def pos_divide_less_eq)

lemma segment_tasks_long:
  assumes "0 < cfg_SampleRate cfg" and "0 \<le> cfg_MaxSpeechDuration cfg"
      and "cfg_MinSpeechDuration cfg \<le> cfg_MaxSpeechDuration cfg"
      and "real (length (seg_Samples segment)) / real_of_int (cfg_SampleRate cfg)
             > cfg_MaxSpeechDuration cfg"
  shows "segment_tasks cfg (Some segment)
           = [take (nat \<lfloor>cfg_MaxSpeechDuration cfg * real_of_int (cfg_SampleRate cfg)\<rfloor>)
                (seg_Samples segment)]
       \<and> length (take (nat \<lfloor>cfg_MaxSpeechDuration cfg * real_of_int (cfg_SampleRate cfg)\<rfloor>)
                (seg_Samples segment))
           = nat \<lfloor>cfg_MaxSpeechDuration cfg * real_of_int (cfg_SampleRate cfg)\<rfloor>
       \<and> real (nat \<lfloor>cfg_MaxSpeechDuration cfg * real_of_int (cfg_SampleRate cfg)\<rfloor>)
           = real_of_int \<lfloor>cfg_MaxSpeechDuration cfg * real_of_int (cfg_SampleRate cfg)\<rfloor>"
proof -
  let ?n = "length (seg_Samples segment)"
  let ?m = "cfg_MaxSpeechDuration cfg * real_of_int (cfg_SampleRate cfg)"
  from assms(1,4) have long: "?m < real ?n"
    by (simp add: pos_less_divide_eq)
  from assms(1,2) have m0: "0 \<le> ?m" by simp
  from assms(1,3) have "cfg_MinSpeechDuration cfg * real_of_int (cfg_SampleRate cfg) \<le> ?m"
    by (simp add: mult_right_mono)
  with long have notshort:
    "\<not> real ?n < cfg_MinSpeechDuration cfg * real_of_int (cfg_SampleRate cfg)"
    by linarith
  from m0 long have pos: "?n \<noteq> 0" by auto
  from go_int_bounds [OF m0 long] have "\<lfloor>?m\<rfloor> \<le> int ?n" by simp
  then have le: "nat \<lfloor>?m\<rfloor> \<le> ?n" by linarith
  from m0 have "0 \<le> \<lfloor>?m\<rfloor>" by simp
  then have r: "real (nat \<lfloor>?m\<rfloor>) = real_of_int \<lfloor>?m\<rfloor>" by simp
  show ?thesis
    using long notshort pos le r by (simp add: segment_tasks_def min_def del: of_int_mult)
qed

lemma accepted_total_update:
  "inst_VAD v = inst_VAD (store p ! a) \<Longrightarrow>
   accepted_total (p\<lparr>store := (store p)[a := v]\<rparr>) = accepted_total p"
proof (cases "a < length (store p)")
  case False
  then show ?thesis by (simp add: accepted_total_def list_update_beyond not_less)
next
  case True
  assume v: "inst_VAD v = inst_VAD (store p ! a)"
  let ?f = "\<lambda>i. case inst_VAD i of None \<Rightarrow> [] | Some vad \<Rightarrow> vad_accepted vad"
  have "map ?f ((store p)[a := v]) = (map ?f (store p))[a := ?f v]"
    by (rule map_update)
  also have "?f v = map ?f (store p) ! a"
    using True v by simp
  also have "(map ?f (store p))[a := map ?f (store p) ! a] = map ?f (store p)"
    by (rule list_update_id)
  finally show ?thesis by (simp add: accepted_total_def)
qed

lemma accepted_total_createNewInstance:
  "accepted_total (snd (createNewInstance env p)) = accepted_total p"
  by (simp add: createNewInstance_def accepted_total_def NewVoiceActivityDetector_def)

lemma accepted_total_fields [simp]:
  "accepted_total (p\<lparr>available := x\<rparr>) = accepted_total p"
  "accepted_total (p\<lparr>totalReused := y\<rparr>) = accepted_total p"
  "accepted_total (p\<lparr>totalActive := z\<rparr>) = accepted_total p"
  by (simp_all add: accepted_total_def)

lemma Get_accepted_total:
  assumes "Get env p = Some y"
  shows "accepted_total (snd y) = accepted_total p"
  using assms
proof (induct rule: Get.raw_induct [rotated 1, consumes 1, case_names step])
  case (step Get' env p y)
  show ?case
  proof (cases "available p")
    case Nil
    with step(2) show ?thesis by (auto simp: accepted_total_createNewInstance)
  next
    case (Cons a rest)
    show ?thesis
    proof (cases "inst_InUse (store p ! a) = 0")
      case True
      have "accepted_total (p\<lparr>store := (store p)[a := (store p ! a)\<lparr>inst_InUse := 1,
                inst_LastUsed := ge_now env\<rparr>]\<rparr>) = accepted_total p"
        by (rule accepted_total_update) simp
      then have "accepted_total (p\<lparr>available := rest,
                   store := (store p)[a := (store p ! a)\<lparr>inst_InUse := 1,
                                                       inst_LastUsed := ge_now env\<rparr>],
                   totalReused := totalReused p + 1,
                   totalActive := totalActive p + 1\<rparr>) = accepted_total p"
        by (simp add: accepted_total_def)
      with step(2) Cons True show ?thesis by auto
    next
      case False
      with step(2) Cons have
        "Get' env (p\<lparr>available := (if length rest < PoolSize p then rest @ [a] else rest)\<rparr>) = Some y"
        by simp
      from step(1) [OF this] show ?thesis by simp
    qed
  qed
qed

lemma process_frame_odd:
  "odd (length audioData) \<Longrightarrow>
   process_frame cfg env m sid session audioData =
     (Some (ErrInvalidLength (length audioData)),
      m\<lparr>sessions := (sessions m)(sid \<mapsto> session\<lparr>sess_LastSeen := ae_now env\<rparr>),
        totalMessages := totalMessages m + 1\<rparr>, [])"
  by (auto simp: process_frame_def Let_def odd_iff_mod_2_eq_one)

lemma ProcessAudioData_holding:
  assumes "sessions m sid = Some s" and "sess_closed s = 0" and "sess_VADInstance s = Some a"
  shows "ProcessAudioData cfg env m sid audioData =
     Some (process_frame cfg env (m\<lparr>sessions := (sessions m)(sid \<mapsto> s\<lparr>sess_LastSeen := ae_now env\<rparr>)\<rparr>)
             sid (s\<lparr>sess_LastSeen := ae_now env\<rparr>) audioData)"
  using assms by (simp add: ProcessAudioData_def Let_def acquireVAD_def)

lemma ProcessAudioData_acquiring:
  assumes "sessions m sid = Some s" and "sess_closed s = 0" and "sess_VADInstance s = None"
      and "Get (ae_get env) (vadPool m) = Some (Inr a, pool)"
  shows "ProcessAudioData cfg env m sid audioData =
     Some (process_frame cfg env
             (m\<lparr>vadPool := pool,
                sessions := (sessions m)
                  (sid \<mapsto> s\<lparr>sess_LastSeen := ae_now env, sess_VADInstance := Some a\<rparr>)\<rparr>)
             sid (s\<lparr>sess_LastSeen := ae_now env, sess_VADInstance := Some a\<rparr>) audioData)"
  using assms by (simp add: ProcessAudioData_def Let_def acquireVAD_def)

lemma collect_not_empty_audio:
  "fst (collect cfg session queue acc) \<noteq> Inl ErrEmptyAudio"
  by (induction cfg session queue acc rule: collect.induct) auto

lemma processSileroVAD_not_empty_audio:
  "fst (processSileroVAD cfg env pool session sid frame) \<noteq> Some ErrEmptyAudio"
proof (cases "sess_VADInstance session")
  case None
  then show ?thesis by (simp add: processSileroVAD_def)
next
  case (Some a)
  show ?thesis
  proof (cases "inst_VAD (store pool ! a)")
    case None
    with Some show ?thesis by (simp add: processSileroVAD_def)
  next
    case (Some vad)
    obtain r q where c: "collect cfg session (vad_queue vad @ ae_emitted env) [] = (r, q)"
      by (cases "collect cfg session (vad_queue vad @ ae_emitted env) []")
    with collect_not_empty_audio [of cfg session "vad_queue vad @ ae_emitted env" "[]"]
    have "r \<noteq> Inl ErrEmptyAudio" by simp
    with c Some \<open>sess_VADInstance session = Some a\<close> show ?thesis
      by (cases r) (simp_all add: processSileroVAD_def Let_def)
  qed
qed

lemma process_frame_not_empty_audio:
  assumes "audioData \<noteq> []"
  shows "fst (process_frame cfg env m sid session audioData) \<noteq> Some ErrEmptyAudio"
proof (cases "length audioData mod 2 \<noteq> 0")
  case True
  with assms show ?thesis by (simp add: process_frame_def Let_def)
next
  case False
  let ?m1 = "m\<lparr>sessions := (sessions m)(sid \<mapsto> session\<lparr>sess_LastSeen := ae_now env\<rparr>),
                totalMessages := totalMessages m + 1\<rparr>"
  obtain err pool tasks where p:
    "processSileroVAD cfg env (vadPool ?m1) (session\<lparr>sess_LastSeen := ae_now env\<rparr>) sid
        (convert (cfg_NormalizeFactor cfg) audioData) = (err, pool, tasks)"
    by (cases "processSileroVAD cfg env (vadPool ?m1) (session\<lparr>sess_LastSeen := ae_now env\<rparr>)
                 sid (convert (cfg_NormalizeFactor cfg) audioData)")
  with processSileroVAD_not_empty_audio
    [of cfg env "vadPool ?m1" "session\<lparr>sess_LastSeen := ae_now env\<rparr>" sid
        "convert (cfg_NormalizeFactor cfg) audioData"]
  have "err \<noteq> Some ErrEmptyAudio" by simp
  with p assms False show ?thesis
    by (simp add: process_frame_def Let_def)
qed

lemma ProcessAudioData_not_empty_audio:
  assumes "audioData \<noteq> []" and "ProcessAudioData cfg env m sid audioData = Some (r, m', tasks)"
  shows "r \<noteq> Some ErrEmptyAudio"
proof (cases "sessions m sid")
  case None
  with assms(2) show ?thesis by (auto simp: ProcessAudioData_def)
next
  case (Some s)
  let ?session = "s\<lparr>sess_LastSeen := ae_now env\<rparr>"
  let ?m0 = "m\<lparr>sessions := (sessions m)(sid \<mapsto> ?session)\<rparr>"
  show ?thesis
  proof (cases "sess_closed s = 1")
    case True
    with assms(2) Some show ?thesis by (auto simp: ProcessAudioData_def Let_def)
  next
    case False
    show ?thesis
    proof (cases "acquireVAD env ?m0 sid ?session")
      case None
      with assms(2) Some False show ?thesis by (simp add: ProcessAudioData_def Let_def)
    next
      case (Some acq)
      obtain res m1 where acq: "acq = (res, m1)" by (cases acq)
      show ?thesis
      proof (cases res)
        case (Inl err)
        from Some acq Inl have "err \<noteq> ErrEmptyAudio"
          by (auto simp: acquireVAD_def split: option.splits sum.splits)
        with assms(2) \<open>sessions m sid = Some s\<close> False Some acq Inl show ?thesis
          by (auto simp: ProcessAudioData_def Let_def)
      next
        case (Inr session1)
        with assms(2) \<open>sessions m sid = Some s\<close> False Some acq
        have "process_frame cfg env m1 sid session1 audioData = (r, m', tasks)"
          by (auto simp: ProcessAudioData_def Let_def)
        with process_frame_not_empty_audio [OF assms(1), of cfg env m1 sid session1]
        show ?thesis by simp
      qed
    qed
  qed
qed

lemma cfg_ex_fields:
  "cfg_SampleRate cfg_ex = 4" "cfg_MaxSpeechDuration cfg_ex = 1"
  "cfg_MinSpeechDuration cfg_ex = 1 / 2" "cfg_MaxMessageSize cfg_ex = 8"
  by (simp_all add: cfg_ex_def)

lemma segment_tasks_ex:
  "segment_tasks cfg_ex (Some seg_short) = []"
  "segment_tasks cfg_ex (Some seg_long) = [[1, 2, 3, 4]]"
  "segment_tasks cfg_ex (Some seg_mid) = [[7, 8, 9]]"
  by (simp_all add: segment_tasks_def cfg_ex_fields seg_short_def seg_long_def seg_mid_def)

subsection \<open>The claims\<close>

text \<open>
  Claim C6. For an open session whose detector answers in time, with a positive sample rate
  and a minimal speech duration that is at most the (non-negative) maximal one, the tasks
  that \<open>processSileroVAD\<close> spawns are, in order, what the specification's rule gives for
  each segment drained from the detector. For every drained segment: if its duration is
  below the minimal speech duration it gives no task; if its duration is above the maximal
  speech duration it gives exactly one task, whose samples are the segment's first
  \<open>max_speech_duration * sampleRate\<close> samples, the product being rounded down to a whole
  number of samples.
\<close>

theorem drained_segments_tasks:
  assumes "0 < cfg_SampleRate cfg" and "0 \<le> cfg_MaxSpeechDuration cfg"
      and "cfg_MinSpeechDuration cfg \<le> cfg_MaxSpeechDuration cfg"
      and "sess_closed session = 0"
      and "sess_VADInstance session = Some a" and "inst_VAD (store pool ! a) = Some vad"
      and "\<not> ae_vad_timeout env"
  shows "fst (processSileroVAD cfg env pool session sid frame) = None
     \<and> map task_samples (snd (snd (processSileroVAD cfg env pool session sid frame)))
         = concat (map (segment_tasks cfg) (vad_queue vad @ ae_emitted env))
     \<and> (\<forall>segment. Some segment \<in> set (vad_queue vad @ ae_emitted env) \<longrightarrow>
           (real (length (seg_Samples segment)) / real_of_int (cfg_SampleRate cfg)
              < cfg_MinSpeechDuration cfg
            \<longrightarrow> segment_tasks cfg (Some segment) = [])
         \<and> (real (length (seg_Samples segment)) / real_of_int (cfg_SampleRate cfg)
              > cfg_MaxSpeechDuration cfg
            \<longrightarrow> segment_tasks cfg (Some segment)
                  = [take (nat \<lfloor>cfg_MaxSpeechDuration cfg * real_of_int (cfg_SampleRate cfg)\<rfloor>)
                       (seg_Samples segment)]
              \<and> length (take (nat \<lfloor>cfg_MaxSpeechDuration cfg
                                       * real_of_int (cfg_SampleRate cfg)\<rfloor>)
                             (seg_Samples segment))
                  = nat \<lfloor>cfg_MaxSpeechDuration cfg * real_of_int (cfg_SampleRate cfg)\<rfloor>
              \<and> real (nat \<lfloor>cfg_MaxSpeechDuration cfg * real_of_int (cfg_SampleRate cfg)\<rfloor>)
                  = real_of_int \<lfloor>cfg_MaxSpeechDuration cfg
                                   * real_of_int (cfg_SampleRate cfg)\<rfloor>))"
proof -
  from assms(4) have open_session: "sess_closed session \<noteq> 1" by simp
  note p = processSileroVAD_open [OF assms(1,2) open_session assms(5,6,7), of sid frame]
  show ?thesis
    using segment_tasks_short [OF assms(1)] segment_tasks_long [OF assms(1,2,3)]
    by (simp add: p task_samples_spawn del: of_int_mult)
qed

theorem drained_segments_tasks_witness:
  "0 < cfg_SampleRate cfg_ex \<and> 0 \<le> cfg_MaxSpeechDuration cfg_ex
   \<and> cfg_MinSpeechDuration cfg_ex \<le> cfg_MaxSpeechDuration cfg_ex
   \<and> sess_closed session_ex = 0 \<and> sess_VADInstance session_ex = Some 0
   \<and> inst_VAD (store pool_one_a ! 0) = Some NewVoiceActivityDetector
   \<and> \<not> ae_vad_timeout env_ex
   \<and> Some seg_short \<in> set (vad_queue NewVoiceActivityDetector @ ae_emitted env_ex)
   \<and> real (length (seg_Samples seg_short)) / real_of_int (cfg_SampleRate cfg_ex)
        < cfg_MinSpeechDuration cfg_ex
   \<and> Some seg_long \<in> set (vad_queue NewVoiceActivityDetector @ ae_emitted env_ex)
   \<and> real (length (seg_Samples seg_long)) / real_of_int (cfg_SampleRate cfg_ex)
        > cfg_MaxSpeechDuration cfg_ex
   \<and> fst (processSileroVAD cfg_ex env_ex pool_one_a session_ex ''s1'' [0, 0]) = None
   \<and> map task_samples (snd (snd (processSileroVAD cfg_ex env_ex pool_one_a session_ex ''s1'' [0, 0])))
        = [[1, 2, 3, 4], [7, 8, 9]]
   \<and> segment_tasks cfg_ex (Some seg_short) = []
   \<and> segment_tasks cfg_ex (Some seg_long) = [take 4 (seg_Samples seg_long)]"
proof -
  have h: "0 < cfg_SampleRate cfg_ex" "0 \<le> cfg_MaxSpeechDuration cfg_ex"
    "cfg_MinSpeechDuration cfg_ex \<le> cfg_MaxSpeechDuration cfg_ex"
    "sess_closed session_ex = 0" "sess_VADInstance session_ex = Some 0"
    "inst_VAD (store pool_one_a ! 0) = Some NewVoiceActivityDetector"
    "\<not> ae_vad_timeout env_ex"
    by (simp_all add: cfg_ex_fields session_ex_def pool_one_a_def idle_instance_def env_ex_def)
  have q: "vad_queue NewVoiceActivityDetector @ ae_emitted env_ex
             = [Some seg_short, Some seg_long, Some seg_mid]"
    by (simp add: NewVoiceActivityDetector_def env_ex_def)
  have s: "real (length (seg_Samples seg_short)) / real_of_int (cfg_SampleRate cfg_ex)
             < cfg_MinSpeechDuration cfg_ex"
    "real (length (seg_Samples seg_long)) / real_of_int (cfg_SampleRate cfg_ex)
             > cfg_MaxSpeechDuration cfg_ex"
    by (simp_all add: cfg_ex_fields seg_short_def seg_long_def)
  note t = drained_segments_tasks [OF h, of "''s1''" "[0, 0]"]
  from t have t1: "fst (processSileroVAD cfg_ex env_ex pool_one_a session_ex ''s1'' [0, 0]) = None"
    by blast
  from t have "map task_samples
        (snd (snd (processSileroVAD cfg_ex env_ex pool_one_a session_ex ''s1'' [0, 0])))
      = concat (map (segment_tasks cfg_ex) (vad_queue NewVoiceActivityDetector @ ae_emitted env_ex))"
    by blast
  then have t2: "map task_samples
        (snd (snd (processSileroVAD cfg_ex env_ex pool_one_a session_ex ''s1'' [0, 0])))
      = [[1, 2, 3, 4], [7, 8, 9]]"
    by (simp add: q segment_tasks_ex)
  have m: "Some seg_short \<in> set (vad_queue NewVoiceActivityDetector @ ae_emitted env_ex)"
    "Some seg_long \<in> set (vad_queue NewVoiceActivityDetector @ ae_emitted env_ex)"
    by (simp_all add: q)
  have t3: "segment_tasks cfg_ex (Some seg_long) = [take 4 (seg_Samples seg_long)]"
    unfolding segment_tasks_ex by (simp add: seg_long_def)
  from h q s t1 t2 m t3 segment_tasks_ex(1) show ?thesis by blast
qed

lemma set_detector_VAD:
  "a < length (store pool) \<Longrightarrow> inst_VAD (store (set_detector pool a v) ! a) = Some v"
  by (simp add: set_detector_def)

lemma processSileroVAD_accepts:
  assumes "sess_VADInstance session = Some a" and "a < length (store pool)"
      and "inst_VAD (store pool ! a) = Some vad"
  shows "\<exists>vad2. inst_VAD (store (fst (snd (processSileroVAD cfg env pool session sid frame))) ! a)
                  = Some vad2
          \<and> vad_accepted vad2 = vad_accepted vad @ [frame]"
proof -
  obtain r q where c: "collect cfg session (vad_queue vad @ ae_emitted env) [] = (r, q)"
    by (cases "collect cfg session (vad_queue vad @ ae_emitted env) []")
  with assms show ?thesis
    by (cases r) (simp_all add: processSileroVAD_def Let_def set_detector_VAD)
qed

lemma process_frame_accepts:
  assumes "sess_VADInstance session = Some a" and "a < length (store (vadPool m))"
      and "inst_VAD (store (vadPool m) ! a) = Some vad"
      and "even (length audioData)" and "audioData \<noteq> []"
  shows "\<exists>vad2. inst_VAD (store (vadPool (fst (snd (process_frame cfg env m sid session audioData)))) ! a)
                  = Some vad2
          \<and> vad_accepted vad2 = vad_accepted vad @ [convert (cfg_NormalizeFactor cfg) audioData]"
proof -
  let ?s1 = "session\<lparr>sess_LastSeen := ae_now env\<rparr>"
  obtain err pool tasks where p:
    "processSileroVAD cfg env (vadPool m) ?s1 sid (convert (cfg_NormalizeFactor cfg) audioData)
       = (err, pool, tasks)"
    by (cases "processSileroVAD cfg env (vadPool m) ?s1 sid
                 (convert (cfg_NormalizeFactor cfg) audioData)")
  from assms(1) have "sess_VADInstance ?s1 = Some a" by simp
  from processSileroVAD_accepts [OF this assms(2,3), of cfg env sid
         "convert (cfg_NormalizeFactor cfg) audioData"] p
  have "\<exists>vad2. inst_VAD (store pool ! a) = Some vad2
          \<and> vad_accepted vad2 = vad_accepted vad @ [convert (cfg_NormalizeFactor cfg) audioData]"
    by simp
  with assms(4,5) p show ?thesis by (simp add: process_frame_def Let_def)
qed

lemma later_frames:
  assumes "sessions m sid = Some s" and "sess_closed s = 0" and "sess_VADInstance s = Some a"
  shows "(\<forall>env2 audio2. ProcessAudioData cfg env2 m sid audio2
             = Some (process_frame cfg env2
                  (m\<lparr>sessions := (sessions m)(sid \<mapsto> s\<lparr>sess_LastSeen := ae_now env2\<rparr>)\<rparr>)
                  sid (s\<lparr>sess_LastSeen := ae_now env2\<rparr>) audio2))
       \<and> (\<forall>env2 audio2 vad.
             even (length audio2) \<and> audio2 \<noteq> [] \<and> a < length (store (vadPool m))
             \<and> inst_VAD (store (vadPool m) ! a) = Some vad \<longrightarrow>
             (\<exists>r2 m2 t2 vad2. ProcessAudioData cfg env2 m sid audio2 = Some (r2, m2, t2)
                \<and> inst_VAD (store (vadPool m2) ! a) = Some vad2
                \<and> vad_accepted vad2
                     = vad_accepted vad @ [convert (cfg_NormalizeFactor cfg) audio2]))"
proof (intro conjI allI impI)
  fix env2 audio2
  show "ProcessAudioData cfg env2 m sid audio2
             = Some (process_frame cfg env2
                  (m\<lparr>sessions := (sessions m)(sid \<mapsto> s\<lparr>sess_LastSeen := ae_now env2\<rparr>)\<rparr>)
                  sid (s\<lparr>sess_LastSeen := ae_now env2\<rparr>) audio2)"
    by (rule ProcessAudioData_holding [OF assms])
next
  fix env2 :: audio_env and audio2 :: "8 word list" and vad :: VoiceActivityDetector
  assume h: "even (length audio2) \<and> audio2 \<noteq> [] \<and> a < length (store (vadPool m))
             \<and> inst_VAD (store (vadPool m) ! a) = Some vad"
  let ?s1 = "s\<lparr>sess_LastSeen := ae_now env2\<rparr>"
  let ?m1 = "m\<lparr>sessions := (sessions m)(sid \<mapsto> ?s1)\<rparr>"
  have v: "sess_VADInstance ?s1 = Some a" "a < length (store (vadPool ?m1))"
    "inst_VAD (store (vadPool ?m1) ! a) = Some vad" "even (length audio2)" "audio2 \<noteq> []"
    using assms(3) h by simp_all
  obtain r2 m2 t2 where p: "process_frame cfg env2 ?m1 sid ?s1 audio2 = (r2, m2, t2)"
    by (cases "process_frame cfg env2 ?m1 sid ?s1 audio2")
  from process_frame_accepts [OF v, of cfg env2 sid] p
  have "\<exists>vad2. inst_VAD (store (vadPool m2) ! a) = Some vad2
          \<and> vad_accepted vad2 = vad_accepted vad @ [convert (cfg_NormalizeFactor cfg) audio2]"
    by simp
  moreover have "ProcessAudioData cfg env2 m sid audio2 = Some (r2, m2, t2)"
    by (simp add: ProcessAudioData_holding [OF assms] p)
  ultimately show "\<exists>r2 m2 t2 vad2. ProcessAudioData cfg env2 m sid audio2 = Some (r2, m2, t2)
                \<and> inst_VAD (store (vadPool m2) ! a) = Some vad2
                \<and> vad_accepted vad2
                     = vad_accepted vad @ [convert (cfg_NormalizeFactor cfg) audio2]"
    by blast
qed

lemma ProcessAudioData_no_instance:
  assumes "sessions m sid = Some s" and "sess_closed s = 0" and "sess_VADInstance s = None"
      and "available (vadPool m) = []" and "\<not> ge_vad_ok (ae_get env)"
  shows "ProcessAudioData cfg env m sid audioData =
     Some (Some (ErrGetVAD sid ErrCreateNewInstance),
           m\<lparr>sessions := (sessions m)(sid \<mapsto> s\<lparr>sess_LastSeen := ae_now env\<rparr>)\<rparr>, [])"
  using assms
  by (simp add: ProcessAudioData_def Let_def acquireVAD_def Get_empty createNewInstance_def)

lemma Get_of_pool_inv:
  assumes "pool_inv p" and "available p \<noteq> [] \<or> ge_vad_ok env"
  shows "\<exists>a pool. Get env p = Some (Inr a, pool)"
proof (cases "available p")
  case Nil
  with assms(2) show ?thesis by (simp add: Get_empty createNewInstance_def)
next
  case (Cons a rest)
  from pool_inv_Get_hit [OF assms(1) Cons] have "inst_InUse (store p ! a) = 0" by simp
  from Get_hit [OF Cons this] show ?thesis by blast
qed

lemma pool_inv_pool_one_a: "pool_inv pool_one_a"
  by (simp add: pool_inv_def pool_one_a_def in_use_count_def idle_instance_def)

text \<open>
  Claim C7, as stated, fails. The second session has no VAD instance yet, the only pooled
  instance is with the first session and no new detector can be built: for the odd frame
  \<open>[1, 2, 3]\<close> \<open>ProcessAudioData\<close> returns the error of the failed acquisition, which comes
  before the validation of the frame, and not the invalid-length error. The pool is in a state
  that \<open>Get\<close> itself produced from the initialised pool.
\<close>

theorem odd_frame_acquisition_counterexample:
  "sessions manager_two ''s2'' = Some session_new \<and> sess_closed session_new = 0
   \<and> odd (length [1, 2, 3 :: 8 word]) \<and> [1, 2, 3 :: 8 word] \<noteq> []
   \<and> Get get_ok pool_one = Some (Inr 0, vadPool manager_two) \<and> pool_inv (vadPool manager_two)
   \<and> (\<exists>m'. ProcessAudioData cfg_ex env_no_vad manager_two ''s2'' [1, 2, 3]
              = Some (Some (ErrGetVAD ''s2'' ErrCreateNewInstance), m', []))
   \<and> (\<forall>m' tasks. ProcessAudioData cfg_ex env_no_vad manager_two ''s2'' [1, 2, 3]
              \<noteq> Some (Some (ErrInvalidLength 3), m', tasks))"
proof -
  have s: "sessions manager_two ''s2'' = Some session_new" "sess_closed session_new = 0"
    "sess_VADInstance session_new = None" "available (vadPool manager_two) = []"
    "\<not> ge_vad_ok (ae_get env_no_vad)"
    by (simp_all add: manager_two_def session_new_def pool_one_a_def env_no_vad_def)
  have p: "vadPool manager_two = pool_one_a" by (simp add: manager_two_def)
  show ?thesis
    using s(1,2) by (simp add: ProcessAudioData_no_instance [OF s] p Get_pool_one
        pool_inv_pool_one_a)
qed

text \<open>
  Claim C7, amended. Take an open session and a frame of odd length (hence non-empty), the
  session holding a VAD instance or the pool being in a state that its operations keep
  (\<open>pool_inv\<close>). \<open>ProcessAudioData\<close> returns, with an error, and spawns no task; no detector
  has been given any waveform; the session is still registered and its closed flag is still 0.
  If the session holds a VAD instance, or the pool has an idle instance queued, or a new
  detector can be built, the error is the invalid-length error, the session holds a VAD
  instance afterwards (the one it had, the pool being untouched, if it had one), every later
  frame of the session passes the session checks and reaches the processing of the frame, and
  a later frame of even non-zero length is converted and handed to the session's detector when
  that detector is live. Otherwise the error is the one of the failed acquisition, which
  precedes the validation of the frame, and the session is left without an instance, the pool
  untouched.
\<close>

theorem odd_frame_rejected:
  assumes "sessions m sid = Some s" and "sess_closed s = 0" and "odd (length audioData)"
      and "sess_VADInstance s \<noteq> None \<or> pool_inv (vadPool m)"
  shows "\<exists>m' s'. ProcessAudioData cfg env m sid audioData
                  = Some (Some (if sess_VADInstance s \<noteq> None \<or> available (vadPool m) \<noteq> []
                                   \<or> ge_vad_ok (ae_get env)
                                then ErrInvalidLength (length audioData)
                                else ErrGetVAD sid ErrCreateNewInstance), m', [])
          \<and> accepted_total (vadPool m') = accepted_total (vadPool m)
          \<and> sessions m' sid = Some s' \<and> sess_closed s' = 0
          \<and> (sess_VADInstance s \<noteq> None \<longrightarrow>
                sess_VADInstance s' = sess_VADInstance s \<and> vadPool m' = vadPool m)
          \<and> (if sess_VADInstance s \<noteq> None \<or> available (vadPool m) \<noteq> []
                 \<or> ge_vad_ok (ae_get env)
              then (\<exists>a. sess_VADInstance s' = Some a
                 \<and> (\<forall>env2 audio2. ProcessAudioData cfg env2 m' sid audio2
                       = Some (process_frame cfg env2
                            (m'\<lparr>sessions := (sessions m')(sid \<mapsto> s'\<lparr>sess_LastSeen := ae_now env2\<rparr>)\<rparr>)
                            sid (s'\<lparr>sess_LastSeen := ae_now env2\<rparr>) audio2))
                 \<and> (\<forall>env2 audio2 vad.
                       even (length audio2) \<and> audio2 \<noteq> [] \<and> a < length (store (vadPool m'))
                       \<and> inst_VAD (store (vadPool m') ! a) = Some vad \<longrightarrow>
                       (\<exists>r2 m2 t2 vad2.
                          ProcessAudioData cfg env2 m' sid audio2 = Some (r2, m2, t2)
                          \<and> inst_VAD (store (vadPool m2) ! a) = Some vad2
                          \<and> vad_accepted vad2
                               = vad_accepted vad @ [convert (cfg_NormalizeFactor cfg) audio2])))
              else sess_VADInstance s' = None \<and> vadPool m' = vadPool m)"
proof (cases "sess_VADInstance s")
  case (Some a)
  let ?s' = "s\<lparr>sess_LastSeen := ae_now env\<rparr>"
  let ?m' = "m\<lparr>sessions := (sessions m)(sid \<mapsto> ?s'), totalMessages := totalMessages m + 1\<rparr>"
  have r: "ProcessAudioData cfg env m sid audioData
             = Some (Some (ErrInvalidLength (length audioData)), ?m', [])"
    by (simp add: ProcessAudioData_holding [OF assms(1,2) Some] process_frame_odd [OF assms(3)])
  have s': "sessions ?m' sid = Some ?s'" "sess_closed ?s' = 0" "sess_VADInstance ?s' = Some a"
    using assms(2) Some by simp_all
  have k: "accepted_total (vadPool ?m') = accepted_total (vadPool m)"
    "sess_VADInstance ?s' = sess_VADInstance s" "vadPool ?m' = vadPool m"
    by simp_all
  from Some have ok: "sess_VADInstance s \<noteq> None \<or> available (vadPool m) \<noteq> []
      \<or> ge_vad_ok (ae_get env)"
    by simp
  from r s' k later_frames [OF s', of cfg] show ?thesis
    unfolding if_P [OF ok] by blast
next
  case None
  show ?thesis
  proof (cases "available (vadPool m) \<noteq> [] \<or> ge_vad_ok (ae_get env)")
    case True
    from None assms(4) have "pool_inv (vadPool m)" by simp
    from Get_of_pool_inv [OF this True]
    obtain a pool where g: "Get (ae_get env) (vadPool m) = Some (Inr a, pool)" by blast
    let ?s' = "s\<lparr>sess_VADInstance := Some a, sess_LastSeen := ae_now env\<rparr>"
    let ?m' = "m\<lparr>vadPool := pool, sessions := (sessions m)(sid \<mapsto> ?s'),
                  totalMessages := totalMessages m + 1\<rparr>"
    have r: "ProcessAudioData cfg env m sid audioData
               = Some (Some (ErrInvalidLength (length audioData)), ?m', [])"
      by (simp add: ProcessAudioData_acquiring [OF assms(1,2) None g]
            process_frame_odd [OF assms(3)])
    have s': "sessions ?m' sid = Some ?s'" "sess_closed ?s' = 0" "sess_VADInstance ?s' = Some a"
      using assms(2) by simp_all
    from Get_accepted_total [OF g]
    have k: "accepted_total (vadPool ?m') = accepted_total (vadPool m)" by simp
    from True have ok: "sess_VADInstance s \<noteq> None \<or> available (vadPool m) \<noteq> []
        \<or> ge_vad_ok (ae_get env)"
      by simp
    from r s' k later_frames [OF s', of cfg] None show ?thesis
      unfolding if_P [OF ok] by blast
  next
    case False
    let ?s' = "s\<lparr>sess_LastSeen := ae_now env\<rparr>"
    let ?m' = "m\<lparr>sessions := (sessions m)(sid \<mapsto> ?s')\<rparr>"
    from False have f: "available (vadPool m) = []" "\<not> ge_vad_ok (ae_get env)" by simp_all
    have r: "ProcessAudioData cfg env m sid audioData
               = Some (Some (ErrGetVAD sid ErrCreateNewInstance), ?m', [])"
      by (rule ProcessAudioData_no_instance [OF assms(1,2) None f])
    have s': "sessions ?m' sid = Some ?s'" "sess_closed ?s' = 0" "sess_VADInstance ?s' = None"
      "vadPool ?m' = vadPool m" "accepted_total (vadPool ?m') = accepted_total (vadPool m)"
      using assms(2) None by simp_all
    from None False have no: "\<not> (sess_VADInstance s \<noteq> None \<or> available (vadPool m) \<noteq> []
        \<or> ge_vad_ok (ae_get env))"
      by simp
    from r s' None show ?thesis
      unfolding if_not_P [OF no] by blast
  qed
qed

theorem odd_frame_rejected_witness:
  "sessions manager_two ''s1'' = Some session_ex \<and> sess_closed session_ex = 0
   \<and> sessions manager_two ''s2'' = Some session_new \<and> sess_closed session_new = 0
   \<and> odd (length [1, 2, 3 :: 8 word]) \<and> sess_VADInstance session_ex \<noteq> None
   \<and> sess_VADInstance session_new = None \<and> pool_inv (vadPool manager_two)
   \<and> (\<exists>m' s'. ProcessAudioData cfg_ex env_ex manager_two ''s1'' [1, 2, 3]
                  = Some (Some (ErrInvalidLength 3), m', [])
          \<and> accepted_total (vadPool m') = accepted_total (vadPool manager_two)
          \<and> sessions m' ''s1'' = Some s' \<and> sess_closed s' = 0
          \<and> sess_VADInstance s' = Some 0 \<and> vadPool m' = vadPool manager_two
          \<and> (\<exists>r2 m2 t2 vad2. ProcessAudioData cfg_ex env_ex m' ''s1'' [1, 0] = Some (r2, m2, t2)
                \<and> inst_VAD (store (vadPool m2) ! 0) = Some vad2
                \<and> vad_accepted vad2 = [convert 32768 [1, 0]]))
   \<and> (\<exists>m' s'. ProcessAudioData cfg_ex env_ex manager_two ''s2'' [1, 2, 3]
                  = Some (Some (ErrInvalidLength 3), m', [])
          \<and> accepted_total (vadPool m') = accepted_total (vadPool manager_two)
          \<and> sessions m' ''s2'' = Some s' \<and> sess_closed s' = 0 \<and> sess_VADInstance s' \<noteq> None)
   \<and> (\<exists>m' s'. ProcessAudioData cfg_ex env_no_vad manager_two ''s2'' [1, 2, 3]
                  = Some (Some (ErrGetVAD ''s2'' ErrCreateNewInstance), m', [])
          \<and> accepted_total (vadPool m') = accepted_total (vadPool manager_two)
          \<and> sessions m' ''s2'' = Some s' \<and> sess_closed s' = 0 \<and> sess_VADInstance s' = None
          \<and> vadPool m' = vadPool manager_two)"
proof -
  have h1: "sessions manager_two ''s1'' = Some session_ex" "sess_closed session_ex = 0"
    "odd (length [1, 2, 3 :: 8 word])"
    by (simp_all add: manager_two_def session_ex_def)
  have h2: "sessions manager_two ''s2'' = Some session_new" "sess_closed session_new = 0"
    "odd (length [1, 2, 3 :: 8 word])"
    by (simp_all add: manager_two_def session_new_def)
  have v: "sess_VADInstance session_ex = Some 0" "sess_VADInstance session_new = None"
    by (simp_all add: session_ex_def session_new_def)
  have p: "vadPool manager_two = pool_one_a" by (simp add: manager_two_def)
  have i: "pool_inv (vadPool manager_two)" by (simp add: p pool_inv_pool_one_a)
  have e: "ge_vad_ok (ae_get env_ex)" "\<not> ge_vad_ok (ae_get env_no_vad)"
    "available (vadPool manager_two) = []"
    by (simp_all add: env_ex_def get_ok_def env_no_vad_def p pool_one_a_def)
  have d: "(0 :: nat) < length (store (vadPool manager_two))"
    "inst_VAD (store (vadPool manager_two) ! 0) = Some NewVoiceActivityDetector"
    "vad_accepted NewVoiceActivityDetector = []" "cfg_NormalizeFactor cfg_ex = 32768"
    by (simp_all add: p pool_one_a_def idle_instance_def NewVoiceActivityDetector_def cfg_ex_def)
  from odd_frame_rejected [OF h1 disjI1, of cfg_ex env_ex] v(1)
  obtain m' s' where a:
    "ProcessAudioData cfg_ex env_ex manager_two ''s1'' [1, 2, 3]
       = Some (Some (ErrInvalidLength 3), m', [])"
    "accepted_total (vadPool m') = accepted_total (vadPool manager_two)"
    "sessions m' ''s1'' = Some s'" "sess_closed s' = 0"
    "sess_VADInstance s' = Some 0" "vadPool m' = vadPool manager_two"
    "\<forall>env2 audio2 vad.
        even (length audio2) \<and> audio2 \<noteq> [] \<and> 0 < length (store (vadPool m'))
        \<and> inst_VAD (store (vadPool m') ! 0) = Some vad \<longrightarrow>
        (\<exists>r2 m2 t2 vad2. ProcessAudioData cfg_ex env2 m' ''s1'' audio2 = Some (r2, m2, t2)
           \<and> inst_VAD (store (vadPool m2) ! 0) = Some vad2
           \<and> vad_accepted vad2 = vad_accepted vad @ [convert (cfg_NormalizeFactor cfg_ex) audio2])"
    by auto
  from a(7) [rule_format, of "[1, 0]" NewVoiceActivityDetector env_ex] a(6) d
  have a7: "\<exists>r2 m2 t2 vad2. ProcessAudioData cfg_ex env_ex m' ''s1'' [1, 0] = Some (r2, m2, t2)
                \<and> inst_VAD (store (vadPool m2) ! 0) = Some vad2
                \<and> vad_accepted vad2 = [convert 32768 [1, 0]]"
    by simp
  from odd_frame_rejected [OF h2 disjI2 [OF i], of cfg_ex env_ex] v(2) e(1)
  have b: "\<exists>m' s'. ProcessAudioData cfg_ex env_ex manager_two ''s2'' [1, 2, 3]
                  = Some (Some (ErrInvalidLength 3), m', [])
          \<and> accepted_total (vadPool m') = accepted_total (vadPool manager_two)
          \<and> sessions m' ''s2'' = Some s' \<and> sess_closed s' = 0 \<and> sess_VADInstance s' \<noteq> None"
    by auto
  from odd_frame_rejected [OF h2 disjI2 [OF i], of cfg_ex env_no_vad] v(2) e(2,3)
  have c: "\<exists>m' s'. ProcessAudioData cfg_ex env_no_vad manager_two ''s2'' [1, 2, 3]
                  = Some (Some (ErrGetVAD ''s2'' ErrCreateNewInstance), m', [])
          \<and> accepted_total (vadPool m') = accepted_total (vadPool manager_two)
          \<and> sessions m' ''s2'' = Some s' \<and> sess_closed s' = 0 \<and> sess_VADInstance s' = None
          \<and> vadPool m' = vadPool manager_two"
    by auto
  from a(1-6) a7 have a': "\<exists>m' s'. ProcessAudioData cfg_ex env_ex manager_two ''s1'' [1, 2, 3]
                  = Some (Some (ErrInvalidLength 3), m', [])
          \<and> accepted_total (vadPool m') = accepted_total (vadPool manager_two)
          \<and> sessions m' ''s1'' = Some s' \<and> sess_closed s' = 0
          \<and> sess_VADInstance s' = Some 0 \<and> vadPool m' = vadPool manager_two
          \<and> (\<exists>r2 m2 t2 vad2. ProcessAudioData cfg_ex env_ex m' ''s1'' [1, 0] = Some (r2, m2, t2)
                \<and> inst_VAD (store (vadPool m2) ! 0) = Some vad2
                \<and> vad_accepted vad2 = [convert 32768 [1, 0]])"
    by blast
  from h1 h2 v i a' b c show ?thesis by simp
qed

text \<open>
  Claim C10. For a frame of length zero the body of the read loop calls nothing and changes
  nothing: \<open>ProcessAudioData\<close> is not invoked, the manager (and with it the session, its
  closed flag and its send queue) is as before, and the loop goes on with the next event.
  Whatever the frame, when the loop does invoke \<open>ProcessAudioData\<close> the result is never the
  empty-audio error.
\<close>

theorem empty_frame_skipped:
  "handle_message cfg env m sid [] =
      Some \<lparr>h_step = Continue, h_manager = m, h_tasks = [], h_called = None\<rparr>
   \<and> read_loop cfg sid (Frame env [] # events) m = read_loop cfg sid events m
   \<and> (\<forall>env' m0 message h. handle_message cfg env' m0 sid message = Some h \<longrightarrow>
         h_called h \<noteq> Some (Some ErrEmptyAudio))"
proof -
  have a: "handle_message cfg env m sid [] =
      Some \<lparr>h_step = Continue, h_manager = m, h_tasks = [], h_called = None\<rparr>"
    by (simp add: handle_message_def)
  have b: "read_loop cfg sid (Frame env [] # events) m = read_loop cfg sid events m"
    by (cases "read_loop cfg sid events m") (auto simp: a)
  have c: "h_called h \<noteq> Some (Some ErrEmptyAudio)"
    if h: "handle_message cfg env' m0 sid message = Some h" for env' m0 message h
  proof (cases "message = []")
    case True
    with h show ?thesis by (auto simp: handle_message_def split: if_splits)
  next
    case False
    show ?thesis
    proof (cases "cfg_MaxMessageSize cfg > 0 \<and> int (length message) > cfg_MaxMessageSize cfg")
      case True
      with h show ?thesis by (auto simp: handle_message_def)
    next
      case big: False
      show ?thesis
      proof (cases "ProcessAudioData cfg env' m0 sid message")
        case None
        with h False big show ?thesis by (auto simp: handle_message_def)
      next
        case (Some res)
        obtain r m1 tasks where res: "res = (r, m1, tasks)" by (cases res)
        from ProcessAudioData_not_empty_audio [OF False] Some res
        have "r \<noteq> Some ErrEmptyAudio" by simp
        with h False big Some res show ?thesis
          by (cases r) (auto simp: handle_message_def)
      qed
    qed
  qed
  from a b c show ?thesis by blast
qed

theorem empty_frame_skipped_witness:
  "(\<exists>h. handle_message cfg_ex env_ex manager_ex ''s1'' [1, 2, 3] = Some h
        \<and> h_called h = Some (Some (ErrInvalidLength 3))
        \<and> h_called h \<noteq> Some (Some ErrEmptyAudio))
   \<and> handle_message cfg_ex env_ex manager_ex ''s1'' [] =
      Some \<lparr>h_step = Continue, h_manager = manager_ex, h_tasks = [], h_called = None\<rparr>
   \<and> (\<exists>m'. ProcessAudioData cfg_ex env_ex manager_ex ''s1'' [] = Some (Some ErrEmptyAudio, m', []))"
proof -
  have s: "sessions manager_ex ''s1'' = Some session_ex" "sess_closed session_ex = 0"
    "sess_VADInstance session_ex = Some 0"
    by (simp_all add: manager_ex_def session_ex_def)
  have p: "ProcessAudioData cfg_ex env_ex manager_ex ''s1'' [1, 2, 3]
      = Some (Some (ErrInvalidLength 3),
          manager_ex\<lparr>sessions := (sessions manager_ex)
              (''s1'' \<mapsto> session_ex\<lparr>sess_LastSeen := ae_now env_ex\<rparr>),
            totalMessages := totalMessages manager_ex + 1\<rparr>, [])"
    by (simp add: ProcessAudioData_holding [OF s] process_frame_def Let_def)
  have e: "ProcessAudioData cfg_ex env_ex manager_ex ''s1'' []
      = Some (Some ErrEmptyAudio,
          manager_ex\<lparr>sessions := (sessions manager_ex)
              (''s1'' \<mapsto> session_ex\<lparr>sess_LastSeen := ae_now env_ex\<rparr>),
            totalMessages := totalMessages manager_ex + 1\<rparr>, [])"
    by (simp add: ProcessAudioData_holding [OF s] process_frame_def Let_def)
  from p obtain h where h: "handle_message cfg_ex env_ex manager_ex ''s1'' [1, 2, 3] = Some h"
    "h_called h = Some (Some (ErrInvalidLength 3))"
    by (simp add: handle_message_def cfg_ex_fields)
  note t = empty_frame_skipped [of cfg_ex env_ex manager_ex "''s1''" "[]"]
  from t h(1) have n: "h_called h \<noteq> Some (Some ErrEmptyAudio)" by blast
  from t have z: "handle_message cfg_ex env_ex manager_ex ''s1'' [] =
      Some \<lparr>h_step = Continue, h_manager = manager_ex, h_tasks = [], h_called = None\<rparr>"
    by blast
  from h n z e show ?thesis by blast
qed

end
